theory Spec2Isabelle
  imports Main "HOL-Library.Word"
begin

unbundle bit_operations_syntax

section \<open>JavaScript values and strict inequality\<close>

text \<open>
  The values that flow through a binding.  Objects are compared by identity, so an
  object is its reference.  \<open>JNaN\<close> is kept apart from the other numbers because it
  is the one value that is strictly unequal to itself.
\<close>

datatype jsval =
    JUndefined
  | JNull
  | JBool bool
  | JNaN
  | JNum int
  | JStr string
  | JObj nat

text \<open>\<open>a === b\<close> and \<open>a !== b\<close>.\<close>

definition strict_eq :: "jsval \<Rightarrow> jsval \<Rightarrow> bool" where
  "strict_eq a b = (a = b \<and> a \<noteq> JNaN)"

definition strict_neq :: "jsval \<Rightarrow> jsval \<Rightarrow> bool" where
  "strict_neq a b = (\<not> strict_eq a b)"

text \<open>Lifecycle flags, binding modes and the binding state are 32-bit bit sets.\<close>

type_synonym flags = "32 word"

section \<open>CollectionLengthObserver\<close>

text \<open>
  The observer of an array's length.  \<open>callSubscribers\<close> comes from the
  subscriber-collection mixin; a call of it is recorded with its three arguments, in
  the order of the calls.
\<close>

record CollectionLengthObserver =
  obj_length :: jsval
  currentValue :: jsval
  callSubscribers_calls :: "(jsval \<times> jsval \<times> flags) list"

definition callSubscribers ::
  "jsval \<Rightarrow> jsval \<Rightarrow> flags \<Rightarrow> CollectionLengthObserver \<Rightarrow> CollectionLengthObserver" where
  "callSubscribers newValue previousValue flags ob =
     ob\<lparr>callSubscribers_calls := callSubscribers_calls ob @ [(newValue, previousValue, flags)]\<rparr>"

definition CLO_getValue :: "CollectionLengthObserver \<Rightarrow> jsval" where
  "CLO_getValue ob = obj_length ob"

definition CLO_setValue ::
  "jsval \<Rightarrow> flags \<Rightarrow> CollectionLengthObserver \<Rightarrow> CollectionLengthObserver" where
  "CLO_setValue newValue flags ob =
     (let currentValue' = currentValue ob in
      if strict_neq newValue currentValue'
      then callSubscribers newValue currentValue' (flags OR 16) (ob\<lparr>currentValue := newValue\<rparr>)
      else ob)"

section \<open>PropertyBinding\<close>

subsection \<open>The collaborators of a binding\<close>

text \<open>
  A scope and a source observer are objects, compared by identity: each is its
  reference.
\<close>

type_synonym scope_ref = nat
type_synonym observer_ref = nat

text \<open>
  The source expression is an AST node; the AST classes belong to another module, so
  an expression is a parameter here: its \<open>$kind\<close>, whether it has the optional
  \<open>bind\<close> and \<open>unbind\<close> methods (\<open>hasBind\<close>, \<open>hasUnbind\<close>), the value
  \<open>evaluate\<close> returns for the flags and the scope it is given, and the source
  observers that \<open>connect\<close> registers with the binding for these flags and this
  scope (its current dependencies).
\<close>

record expression =
  kind :: nat
  hasBind :: bool
  hasUnbind :: bool
  evaluate :: "flags \<Rightarrow> scope_ref option \<Rightarrow> jsval"
  dependencies :: "flags \<Rightarrow> scope_ref option \<Rightarrow> observer_ref list"

text \<open>
  The target observer (or accessor), as far as the binding uses it: whether it has the
  optional \<open>bind\<close> and \<open>unbind\<close> methods, whether it is subscribable (an observer has
  both \<open>subscribe\<close> and \<open>unsubscribe\<close>, a plain accessor has neither), the value
  \<open>getValue\<close> returns (\<open>setValue\<close> stores it), whether the binding is among its
  subscribers, and the flags it keeps under the binding's id.
\<close>

record target_observer =
  has_bind :: bool
  has_unbind :: bool
  subscribable :: bool
  observed_value :: jsval
  subscribed :: bool
  id_flags :: flags

text \<open>The calls a binding makes on its collaborators, recorded in their order.\<close>

datatype event =
    Evaluate flags "scope_ref option"
  | Connect flags "scope_ref option"
  | Assign flags "scope_ref option" jsval
  | ExprBind flags scope_ref
  | ExprUnbind flags "scope_ref option"
  | GetObserver flags
  | GetAccessor flags
  | GetValue
  | SetValue jsval flags
  | ObserverBind flags
  | ObserverUnbind flags
  | Subscribe
  | Unsubscribe
  | Unobserve bool

text \<open>
  The field \<open>version\<close>.  The constructor does not assign it, so on a new binding it
  is undefined (\<open>Unset\<close>); \<open>this.version++\<close> in \<open>handleChange\<close> turns an
  undefined version into NaN (\<open>NotANumber\<close>), leaves NaN as it is, and adds one to
  a number.
\<close>

datatype counter = Unset | NotANumber | Counted nat

fun increment :: "counter \<Rightarrow> counter" where
  "increment Unset = NotANumber"
| "increment NotANumber = NotANumber"
| "increment (Counted n) = Counted (n + 1)"

text \<open>
  Modelled from the spec: the connectable mixin (\<open>addObserver\<close>, \<open>unobserve\<close>, the
  field \<open>observerSlots\<close>) is not among the sources.  Connecting establishes the
  subscriptions to the source observers the expression depends on; the binding keeps
  each observer it is subscribed to in a slot, tagged with the version at which it was
  last used, and an emptied slot is free again.  \<open>addObserver\<close> sets a version that
  is still undefined to 0 before it tags the slot.  \<open>unobserve(false)\<close> compares a
  tag with the version by \<open>!==\<close>, under which NaN differs from itself.
  \<open>observerSlots\<close> is the number of slots, open ones included.  A slot also
  remembers the scope of the \<open>connect\<close> call that last used it.
\<close>

datatype slot = Slot (observer: observer_ref) (tag: counter) (under: "scope_ref option")

fun initialised :: "counter \<Rightarrow> counter" where
  "initialised Unset = Counted 0"
| "initialised NotANumber = NotANumber"
| "initialised (Counted n) = Counted n"

definition same_count :: "counter \<Rightarrow> counter \<Rightarrow> bool" where
  "same_count a b = (a = b \<and> a \<noteq> NotANumber)"

datatype error = TypeError | ReporterError nat flags

text \<open>
  A method either returns or throws; in both cases the binding is left in some state.
\<close>

datatype 'a outcome = Return 'a | Throw error 'a

definition and_then :: "'a outcome \<Rightarrow> ('a \<Rightarrow> 'a outcome) \<Rightarrow> 'a outcome" where
  "and_then r f = (case r of Return w \<Rightarrow> f w | Throw e w \<Rightarrow> Throw e w)"

fun after :: "'a outcome \<Rightarrow> 'a" where
  "after (Return w) = w"
| "after (Throw e w) = w"

fun returns :: "'a outcome \<Rightarrow> bool" where
  "returns (Return w) = True"
| "returns (Throw e w) = False"

subsection \<open>The binding\<close>

text \<open>
  The fields of a PropertyBinding.  \<open>state\<close> and \<open>scope\<close> are \<open>$state\<close> and
  \<open>$scope\<close>; \<open>None\<close> is \<open>undefined\<close>.  \<open>interceptor\<close> is the binding itself, as the
  constructor sets it.  \<open>locator_observer\<close> and \<open>locator_accessor\<close> are what the
  observer locator returns for the binding's target and target property from
  \<open>getObserver\<close> and from \<open>getAccessor\<close>.  \<open>trace\<close> is the record of the calls made
  on the collaborators.
\<close>

record PropertyBinding =
  sourceExpression :: expression
  mode :: "32 word"
  state :: "32 word"
  scope :: "scope_ref option"
  part :: "string option"
  targetObserver :: "target_observer option"
  persistentFlags :: flags
  version :: counter
  slots :: "slot option list"
  locator_observer :: target_observer
  locator_accessor :: target_observer
  trace :: "event list"

text \<open>
  Modelled from the spec: the enum \<open>BindingMode\<close> of the flags module is not among
  the sources.  The four modes are one-time, to-view, from-view and two-way, two-way
  being both directions.
\<close>

definition oneTime :: "32 word" where "oneTime = 1"
definition toView :: "32 word" where "toView = 2"
definition fromView :: "32 word" where "fromView = 4"
definition twoWay :: "32 word" where "twoWay = 6"

definition toViewOrOneTime :: "32 word" where
  "toViewOrOneTime = toView OR oneTime"

text \<open>
  The constructor: state none, no scope, no target observer, no persistent flags.  It
  assigns neither \<open>version\<close> nor any slot.
\<close>

definition construct ::
  "expression \<Rightarrow> 32 word \<Rightarrow> target_observer \<Rightarrow> target_observer \<Rightarrow> PropertyBinding" where
  "construct e m lo la =
     \<lparr>sourceExpression = e, mode = m, state = 0, scope = None, part = None,
      targetObserver = None, persistentFlags = 0, version = Unset, slots = [],
      locator_observer = lo, locator_accessor = la, trace = []\<rparr>"

definition log :: "event \<Rightarrow> PropertyBinding \<Rightarrow> PropertyBinding" where
  "log ev w = w\<lparr>trace := trace w @ [ev]\<rparr>"

subsection \<open>The connectable part\<close>

definition observerSlots :: "PropertyBinding \<Rightarrow> nat" where
  "observerSlots w = length (slots w)"

fun holds :: "observer_ref \<Rightarrow> slot option \<Rightarrow> bool" where
  "holds ob None = False"
| "holds ob (Some s) = (observer s = ob)"

text \<open>The first open slot takes the observer; with no open slot, a new one is added.\<close>

fun place :: "slot \<Rightarrow> slot option list \<Rightarrow> slot option list" where
  "place s [] = [Some s]"
| "place s (None # ss) = Some s # ss"
| "place s (Some x # ss) = Some x # place s ss"

text \<open>
  An observer the binding already holds is not subscribed to again; its slot is
  tagged with the current version.
\<close>

definition add_slot ::
  "scope_ref option \<Rightarrow> counter \<Rightarrow> observer_ref \<Rightarrow> slot option list \<Rightarrow> slot option list" where
  "add_slot sc v ob ss =
     (if list_ex (holds ob) ss
      then map (\<lambda>s. if holds ob s then Some (Slot ob v sc) else s) ss
      else place (Slot ob v sc) ss)"

definition addObserver ::
  "scope_ref option \<Rightarrow> observer_ref \<Rightarrow> PropertyBinding \<Rightarrow> PropertyBinding" where
  "addObserver sc ob w =
     (let w = w\<lparr>version := initialised (version w)\<rparr>
      in w\<lparr>slots := add_slot sc (version w) ob (slots w)\<rparr>)"

text \<open>
  \<open>unobserve(true)\<close> empties every slot, \<open>unobserve(false)\<close> the slots whose tag
  differs (\<open>!==\<close>) from the current version; emptying a slot unsubscribes from its
  observer.
\<close>

fun stale :: "bool \<Rightarrow> counter \<Rightarrow> slot option \<Rightarrow> bool" where
  "stale all v None = False"
| "stale all v (Some s) = (if all then True else \<not> same_count (tag s) v)"

definition unobserve :: "bool \<Rightarrow> PropertyBinding \<Rightarrow> PropertyBinding" where
  "unobserve all w =
     (log (Unobserve all) w)
       \<lparr>slots := map (\<lambda>s. if stale all (version w) s then None else s) (slots w)\<rparr>"

text \<open>
  \<open>sourceExpression.connect(flags, scope, binding, part)\<close>: the expression registers
  each of its current dependencies with the binding.
\<close>

definition connect ::
  "flags \<Rightarrow> scope_ref option \<Rightarrow> PropertyBinding \<Rightarrow> PropertyBinding" where
  "connect flags sc w =
     fold (addObserver sc) (dependencies (sourceExpression w) flags sc)
       (log (Connect flags sc) w)"

text \<open>The version after \<open>connect\<close> has registered the observers \<open>obs\<close>.\<close>

definition connected_version :: "counter \<Rightarrow> observer_ref list \<Rightarrow> counter" where
  "connected_version v obs = (if obs = [] then v else initialised v)"

text \<open>The source observers the binding is subscribed to: those in its slots.\<close>

definition subscriptions :: "PropertyBinding \<Rightarrow> observer_ref list" where
  "subscriptions w = map observer (List.map_filter id (slots w))"

subsection \<open>The methods\<close>

text \<open>
  The methods of the class, prefixed with \<open>PB_\<close>; \<open>PB_bind\<close> and \<open>PB_unbind\<close>
  are \<open>$bind\<close> and \<open>$unbind\<close>.  A method call on a target observer that is
  undefined, or a call of a method the target observer does not have, throws a
  TypeError.  The unused parameter \<open>_previousValue\<close> of \<open>handleChange\<close> is
  \<open>previousValue0\<close>.
\<close>

definition PB_updateTarget :: "jsval \<Rightarrow> flags \<Rightarrow> PropertyBinding \<Rightarrow> PropertyBinding outcome" where
  "PB_updateTarget v flags w =
     (let flags = flags OR persistentFlags w in
      case targetObserver w of
        None \<Rightarrow> Throw TypeError w
      | Some t \<Rightarrow>
          Return (log (SetValue v flags) (w\<lparr>targetObserver := Some (t\<lparr>observed_value := v\<rparr>)\<rparr>)))"

definition PB_updateSource :: "jsval \<Rightarrow> flags \<Rightarrow> PropertyBinding \<Rightarrow> PropertyBinding outcome" where
  "PB_updateSource v flags w =
     (let flags = flags OR persistentFlags w in
      Return (log (Assign flags (scope w) v) w))"

definition PB_handleChange ::
  "jsval \<Rightarrow> jsval \<Rightarrow> flags \<Rightarrow> PropertyBinding \<Rightarrow> PropertyBinding outcome" where
  "PB_handleChange newValue previousValue0 flags w =
     (if state w AND 4 = 0 then Return w
      else
        let flags = flags OR persistentFlags w in
        if flags AND 16 > 0 then
          (case targetObserver w of
             None \<Rightarrow> Throw TypeError w
           | Some t \<Rightarrow>
               let previousValue = observed_value t;
                   w = log GetValue w;
                   reevaluate = (kind (sourceExpression w) \<noteq> 10082 \<or> observerSlots w > 1);
                   newValue = (if reevaluate
                               then evaluate (sourceExpression w) flags (scope w)
                               else newValue);
                   w = (if reevaluate then log (Evaluate flags (scope w)) w else w)
               in and_then
                    (if strict_neq newValue previousValue
                     then PB_updateTarget newValue flags w
                     else Return w)
                    (\<lambda>w. if mode w AND oneTime = 0
                         then Return (unobserve False
                                (connect flags (scope w) (w\<lparr>version := increment (version w)\<rparr>)))
                         else Return w))
        else if flags AND 32 > 0 then
          (let w' = log (Evaluate flags (scope w)) w in
           if strict_neq newValue (evaluate (sourceExpression w) flags (scope w))
           then PB_updateSource newValue flags w'
           else Return w')
        else Throw (ReporterError 15 flags) w)"

definition PB_unbind :: "flags \<Rightarrow> PropertyBinding \<Rightarrow> PropertyBinding outcome" where
  "PB_unbind flags w =
     (if state w AND 4 = 0 then Return w
      else
        let w = w\<lparr>state := state w OR 2\<rparr>;
            w = w\<lparr>persistentFlags := 0\<rparr>;
            w = (if hasUnbind (sourceExpression w) then log (ExprUnbind flags (scope w)) w else w);
            w = w\<lparr>scope := None\<rparr>
        in case targetObserver w of
             None \<Rightarrow> Throw TypeError w
           | Some t \<Rightarrow>
               let w = (if has_unbind t then log (ObserverUnbind flags) w else w);
                   w = (if subscribable t
                        then (log Unsubscribe w)
                               \<lparr>targetObserver :=
                                  Some (t\<lparr>subscribed := False, id_flags := id_flags t AND NOT 32\<rparr>)\<rparr>
                        else w);
                   w = unobserve True w
               in Return (w\<lparr>state := state w AND NOT (4 OR 2)\<rparr>))"

text \<open>
  \<open>$bind\<close> once the binding is known not to be bound (lines 73 to 112), in the
  order of the source.  Lines 73 to 85: the \<open>isBinding\<close> flag is added, the
  persistent flags, the scope and the part are stored, and the source expression is
  bound if it has a \<open>bind\<close> method.
\<close>

definition bind_enter ::
  "flags \<Rightarrow> scope_ref \<Rightarrow> string option \<Rightarrow> PropertyBinding \<Rightarrow> PropertyBinding" where
  "bind_enter flags scope' part' w =
     (let w = w\<lparr>state := state w OR 1,
                 persistentFlags := flags AND 2080374799,
                 scope := Some scope',
                 part := part'\<rparr>
      in if hasBind (sourceExpression w) then log (ExprBind flags scope') w else w)"

text \<open>
  Lines 86 to 94: a binding without a target observer asks the observer locator for
  one, an observer when its mode includes from-view and an accessor otherwise.
\<close>

definition bind_locate :: "flags \<Rightarrow> PropertyBinding \<Rightarrow> PropertyBinding" where
  "bind_locate flags w =
     (case targetObserver w of
        Some t \<Rightarrow> w
      | None \<Rightarrow>
          if mode w AND fromView \<noteq> 0
          then (log (GetObserver flags) w)\<lparr>targetObserver := Some (locator_observer w)\<rparr>
          else (log (GetAccessor flags) w)\<lparr>targetObserver := Some (locator_accessor w)\<rparr>)"

text \<open>Lines 95 to 97: the target observer is bound, unless the mode is one-time.\<close>

definition bind_observer :: "flags \<Rightarrow> PropertyBinding \<Rightarrow> PropertyBinding outcome" where
  "bind_observer flags w =
     (case targetObserver w of
        None \<Rightarrow> Throw TypeError w
      | Some t \<Rightarrow>
          Return (if mode w \<noteq> oneTime \<and> has_bind t then log (ObserverBind flags) w else w))"

text \<open>Lines 100 to 102: the expression is evaluated and the target updated.\<close>

definition bind_update :: "flags \<Rightarrow> scope_ref \<Rightarrow> PropertyBinding \<Rightarrow> PropertyBinding outcome" where
  "bind_update flags scope' w =
     (if mode w AND toViewOrOneTime \<noteq> 0
      then PB_updateTarget (evaluate (sourceExpression w) flags (Some scope')) flags
             (log (Evaluate flags (Some scope')) w)
      else Return w)"

text \<open>Lines 103 to 105: the expression is connected.\<close>

definition bind_connect :: "flags \<Rightarrow> scope_ref \<Rightarrow> PropertyBinding \<Rightarrow> PropertyBinding outcome" where
  "bind_connect flags scope' w =
     Return (if mode w AND toView \<noteq> 0 then connect flags (Some scope') w else w)"

text \<open>
  Lines 106 to 109: the binding subscribes to the target observer; a target observer
  without a \<open>subscribe\<close> method makes the call throw.
\<close>

definition bind_subscribe :: "PropertyBinding \<Rightarrow> PropertyBinding outcome" where
  "bind_subscribe w =
     (if mode w AND fromView \<noteq> 0
      then (case targetObserver w of
              None \<Rightarrow> Throw TypeError w
            | Some t \<Rightarrow>
                if subscribable t
                then Return ((log Subscribe w)
                       \<lparr>targetObserver :=
                          Some (t\<lparr>subscribed := True, id_flags := id_flags t OR 32\<rparr>)\<rparr>)
                else Throw TypeError w)
      else Return w)"

text \<open>Lines 110 to 112: the \<open>isBound\<close> flag is added, the \<open>isBinding\<close> flag removed.\<close>

definition bind_leave :: "PropertyBinding \<Rightarrow> PropertyBinding outcome" where
  "bind_leave w =
     (let w = w\<lparr>state := state w OR 4\<rparr>
      in Return (w\<lparr>state := state w AND NOT 1\<rparr>))"

definition bind_body ::
  "flags \<Rightarrow> scope_ref \<Rightarrow> string option \<Rightarrow> PropertyBinding \<Rightarrow> PropertyBinding outcome" where
  "bind_body flags scope' part' w =
     (let flags = flags OR 4 in
      and_then (bind_observer flags (bind_locate flags (bind_enter flags scope' part' w)))
        (\<lambda>w. and_then (bind_update flags scope' w)
          (\<lambda>w. and_then (bind_connect flags scope' w)
            (\<lambda>w. and_then (bind_subscribe w) bind_leave))))"

definition PB_bind ::
  "flags \<Rightarrow> scope_ref \<Rightarrow> string option \<Rightarrow> PropertyBinding \<Rightarrow> PropertyBinding outcome" where
  "PB_bind flags scope' part' w =
     (if state w AND 4 \<noteq> 0 then
        if scope w = Some scope' then Return w
        else and_then (PB_unbind (flags OR 4096) w) (bind_body flags scope' part')
      else bind_body flags scope' part' w)"

section \<open>router/src/util.ts: resolveAll\<close>

text \<open>
  An element of the input array is either \<open>void\<close> or a promise; a promise is an
  object, identified by its reference.
\<close>

datatype maybePromise = Void | Promise nat

text \<open>
  What \<open>resolveAll\<close> returns: nothing (\<open>undefined\<close>), one of the promises it was
  given, or the new promise made by \<open>Promise.all\<close> from an array of promises.
\<close>

datatype resolved = Nothing | Same nat | PromiseAll "nat list"

text \<open>The \<open>for ... of\<close> loop: every element that is a promise is pushed onto \<open>promises\<close>.\<close>

fun collect :: "maybePromise list \<Rightarrow> nat list \<Rightarrow> nat list" where
  "collect [] promises = promises"
| "collect (Void # rest) promises = collect rest promises"
| "collect (Promise p # rest) promises = collect rest (promises @ [p])"

definition resolveAll :: "maybePromise list \<Rightarrow> resolved" where
  "resolveAll maybePromises =
     (let promises = collect maybePromises [] in
      if length promises = 0 then Nothing
      else if length promises = 1 then Same (promises ! 0)
      else PromiseAll promises)"

text \<open>The promise elements of a list, in order: the words of the claim.\<close>

fun promise_elements :: "maybePromise list \<Rightarrow> nat list" where
  "promise_elements [] = []"
| "promise_elements (Void # xs) = promise_elements xs"
| "promise_elements (Promise p # xs) = p # promise_elements xs"

section \<open>Reading a binding's state\<close>

text \<open>The \<open>isBound\<close> bit of \<open>$state\<close>.\<close>

definition isBound :: "PropertyBinding \<Rightarrow> bool" where
  "isBound w = (state w AND 4 \<noteq> 0)"

text \<open>The slots that hold an observer.\<close>

definition filled :: "slot option list \<Rightarrow> slot set" where
  "filled ss = {sl. Some sl \<in> set ss}"

text \<open>The calls of one kind in a trace.\<close>

fun is_Evaluate :: "event \<Rightarrow> bool" where
  "is_Evaluate (Evaluate f sc) = True"
| "is_Evaluate ev = False"

fun is_Connect :: "event \<Rightarrow> bool" where
  "is_Connect (Connect f sc) = True"
| "is_Connect ev = False"

fun is_Assign :: "event \<Rightarrow> bool" where
  "is_Assign (Assign f sc v) = True"
| "is_Assign ev = False"

fun is_SetValue :: "event \<Rightarrow> bool" where
  "is_SetValue (SetValue v f) = True"
| "is_SetValue ev = False"

fun is_Subscribe :: "event \<Rightarrow> bool" where
  "is_Subscribe Subscribe = True"
| "is_Subscribe ev = False"

fun is_Unobserve :: "event \<Rightarrow> bool" where
  "is_Unobserve (Unobserve all) = True"
| "is_Unobserve ev = False"

definition calls :: "(event \<Rightarrow> bool) \<Rightarrow> PropertyBinding \<Rightarrow> event list" where
  "calls P w = filter P (trace w)"

subsection \<open>Well-formed bindings\<close>

text \<open>
  What holds of a binding between two calls of its methods: a bound binding has its
  target observer and a scope; a binding that is not bound has no scope, no persistent
  flags, no source subscription and no subscription to its target observer; every
  slot was last used under the binding's scope; the observer locator's
  \<open>getObserver\<close> returns an observer, which
  is subscribable, and the binding is subscribed to nothing it has not met; a target
  observer the binding is subscribed to is subscribable, and so is the target
  observer of a binding whose mode includes from-view.
\<close>

fun slot_ok :: "scope_ref option \<Rightarrow> slot option \<Rightarrow> bool" where
  "slot_ok sc None = True"
| "slot_ok sc (Some sl) = (under sl = sc)"

fun target_ok :: "32 word \<Rightarrow> bool \<Rightarrow> target_observer option \<Rightarrow> bool" where
  "target_ok m b None = (\<not> b)"
| "target_ok m b (Some t) =
     ((subscribable t \<or> \<not> subscribed t) \<and> (b \<or> \<not> subscribed t)
      \<and> (subscribable t \<or> m AND fromView = 0))"

definition wf :: "PropertyBinding \<Rightarrow> bool" where
  "wf w =
     (target_ok (mode w) (isBound w) (targetObserver w)
      \<and> (if isBound w then scope w \<noteq> None
          else scope w = None \<and> persistentFlags w = 0 \<and> list_all (\<lambda>s. s = None) (slots w))
      \<and> list_all (slot_ok (scope w)) (slots w)
      \<and> subscribable (locator_observer w)
      \<and> \<not> subscribed (locator_observer w)
      \<and> \<not> subscribed (locator_accessor w))"

subsection \<open>Sequences of calls\<close>

datatype call =
    Bind flags scope_ref "string option"
  | Unbind flags
  | HandleChange jsval jsval flags

fun invoke :: "call \<Rightarrow> PropertyBinding \<Rightarrow> PropertyBinding outcome" where
  "invoke (Bind flags scope' part') w = PB_bind flags scope' part' w"
| "invoke (Unbind flags) w = PB_unbind flags w"
| "invoke (HandleChange newValue previousValue flags) w =
     PB_handleChange newValue previousValue flags w"

text \<open>
  A caller that catches what a call throws goes on with the binding as the throw left
  it.
\<close>

fun run :: "call list \<Rightarrow> PropertyBinding \<Rightarrow> PropertyBinding" where
  "run [] w = w"
| "run (c # cs) w = run cs (after (invoke c w))"

subsection \<open>Sample collaborators\<close>

text \<open>
  An expression of a kind other than AccessScope, with an \<open>unbind\<close> method and no
  \<open>bind\<close> method, that evaluates to 7 and depends on two observers; an observer and
  an accessor as the observer locator may return them.
\<close>

definition sample_expression :: expression where
  "sample_expression =
     \<lparr>kind = 36913, hasBind = False, hasUnbind = True,
      evaluate = (\<lambda>f sc. JNum 7), dependencies = (\<lambda>f sc. [1, 2])\<rparr>"

definition sample_observer :: target_observer where
  "sample_observer =
     \<lparr>has_bind = True, has_unbind = True, subscribable = True,
      observed_value = JUndefined, subscribed = False, id_flags = 0\<rparr>"

definition sample_accessor :: target_observer where
  "sample_accessor =
     \<lparr>has_bind = False, has_unbind = False, subscribable = False,
      observed_value = JUndefined, subscribed = False, id_flags = 0\<rparr>"

text \<open>A new binding of the given mode, and a to-view binding bound to scope 5.\<close>

definition sample_new :: "32 word \<Rightarrow> PropertyBinding" where
  "sample_new m = construct sample_expression m sample_observer sample_accessor"

definition sample_bound :: "32 word \<Rightarrow> PropertyBinding" where
  "sample_bound m =
     \<lparr>sourceExpression = sample_expression, mode = m, state = 4, scope = Some 5,
      part = None, targetObserver = Some (sample_observer\<lparr>observed_value := JNum 3\<rparr>),
      persistentFlags = 4, version = Counted 0,
      slots = [Some (Slot 1 (Counted 0) (Some 5)), Some (Slot 9 (Counted 0) (Some 5))],
      locator_observer = sample_observer, locator_accessor = sample_accessor,
      trace = []\<rparr>"

text \<open>
  An AccessScope expression that depends on one observer of the scope it is connected
  under, and a new two-way binding of it whose observer locator returns from
  \<open>getObserver\<close> an accessor, which has no \<open>subscribe\<close> method.
\<close>

definition sample_scoped_expression :: expression where
  "sample_scoped_expression =
     \<lparr>kind = 10082, hasBind = False, hasUnbind = False,
      evaluate = (\<lambda>f sc. JNum 7),
      dependencies = (\<lambda>f sc. case sc of None \<Rightarrow> [] | Some r \<Rightarrow> [r + 10])\<rparr>"

definition sample_unsubscribable :: PropertyBinding where
  "sample_unsubscribable =
     construct sample_scoped_expression twoWay sample_accessor sample_accessor"

subsection \<open>The parts of the methods' results\<close>

text \<open>
  Names for what the methods leave behind, used to state their results: the target
  observer after \<open>$unbind\<close> and the calls \<open>$unbind\<close> makes; the value
  \<open>handleChange\<close> compares with the target's; the target observer \<open>$bind\<close>
  works with, the calls it makes and the target observer it leaves.
\<close>

definition unbound_target :: "target_observer \<Rightarrow> target_observer" where
  "unbound_target t =
     (if subscribable t then t\<lparr>subscribed := False, id_flags := id_flags t AND NOT 32\<rparr> else t)"

definition unbind_events :: "flags \<Rightarrow> PropertyBinding \<Rightarrow> target_observer \<Rightarrow> event list" where
  "unbind_events f w t =
     (if hasUnbind (sourceExpression w) then [ExprUnbind f (scope w)] else [])
     @ (if has_unbind t then [ObserverUnbind f] else [])
     @ (if subscribable t then [Unsubscribe] else [])
     @ [Unobserve True]"

definition new_value :: "jsval \<Rightarrow> flags \<Rightarrow> PropertyBinding \<Rightarrow> jsval" where
  "new_value newValue f w =
     (if kind (sourceExpression w) \<noteq> 10082 \<or> observerSlots w > 1
      then evaluate (sourceExpression w) f (scope w) else newValue)"

definition bind_target :: "PropertyBinding \<Rightarrow> target_observer" where
  "bind_target w =
     (case targetObserver w of
        Some t \<Rightarrow> t
      | None \<Rightarrow> if mode w AND fromView \<noteq> 0 then locator_observer w else locator_accessor w)"

definition bind_events :: "flags \<Rightarrow> scope_ref \<Rightarrow> PropertyBinding \<Rightarrow> event list" where
  "bind_events f sc w =
     (if hasBind (sourceExpression w) then [ExprBind f sc] else [])
     @ (case targetObserver w of
          Some t \<Rightarrow> []
        | None \<Rightarrow> if mode w AND fromView \<noteq> 0 then [GetObserver f] else [GetAccessor f])
     @ (if mode w \<noteq> oneTime \<and> has_bind (bind_target w) then [ObserverBind f] else [])
     @ (if mode w AND toViewOrOneTime \<noteq> 0
        then [Evaluate f (Some sc), SetValue (evaluate (sourceExpression w) f (Some sc)) f]
        else [])
     @ (if mode w AND toView \<noteq> 0 then [Connect f (Some sc)] else [])
     @ (if mode w AND fromView \<noteq> 0 then [Subscribe] else [])"

definition bound_target :: "flags \<Rightarrow> scope_ref \<Rightarrow> PropertyBinding \<Rightarrow> target_observer" where
  "bound_target f sc w =
     (let t = bind_target w;
          t = (if mode w AND toViewOrOneTime \<noteq> 0
               then t\<lparr>observed_value := evaluate (sourceExpression w) f (Some sc)\<rparr> else t)
      in if mode w AND fromView \<noteq> 0
         then t\<lparr>subscribed := True, id_flags := id_flags t OR 32\<rparr> else t)"

text \<open>
  The binding \<open>$bind\<close> starts from: the binding itself when it is not bound, and
  what \<open>$unbind\<close>, called with the \<open>fromBind\<close> flag, leaves of it otherwise.
\<close>

definition unbound_first :: "flags \<Rightarrow> PropertyBinding \<Rightarrow> PropertyBinding" where
  "unbound_first f w = (if isBound w then after (PB_unbind (f OR 4096) w) else w)"

section \<open>Properties of resolveAll\<close>

lemma collect_promise_elements:
  "collect xs acc = acc @ promise_elements xs"
  by (induction xs acc rule: collect.induct) simp_all

lemma promise_elements_map_Promise:
  "promise_elements (map Promise ps) = ps"
  by (induction ps) simp_all

text \<open>
  Claim C10.  \<open>resolveAll\<close> returns nothing when no element is a promise, the one
  promise itself when exactly one element is a promise, and \<open>Promise.all\<close> over
  exactly the promise elements, in their order, when there are two or more.  The
  elements that are not promises do not matter: the result is that of the list of the
  promise elements alone.
\<close>

theorem resolveAll_cases:
  "resolveAll xs =
     (case promise_elements xs of
        [] \<Rightarrow> Nothing
      | [p] \<Rightarrow> Same p
      | p # q # ps \<Rightarrow> PromiseAll (p # q # ps))
   \<and> resolveAll xs = resolveAll (map Promise (promise_elements xs))"
proof -
  have shape: "resolveAll ys =
     (case promise_elements ys of
        [] \<Rightarrow> Nothing
      | [p] \<Rightarrow> Same p
      | p # q # ps \<Rightarrow> PromiseAll (p # q # ps))" for ys
    by (simp add: resolveAll_def collect_promise_elements split: list.split)
  have "resolveAll (map Promise (promise_elements xs)) = resolveAll xs"
    unfolding shape [of xs] shape [of "map Promise (promise_elements xs)"]
    by (simp add: promise_elements_map_Promise)
  with shape [of xs] show ?thesis by simp
qed


section \<open>Bits of the state\<close>

lemma and_4_eq_0_iff: "((x::32 word) AND 4 = 0) = (\<not> bit x 2)"
proof -
  have "(4::32 word) = 2 ^ 2" by simp
  then show ?thesis
    by (metis and_exp_eq_0_iff_not_bit)
qed

lemma isBound_iff: "isBound w = bit (state w) 2"
  by (simp add: isBound_def and_4_eq_0_iff)

lemma not_bound_after_unbinding: "(((s::32 word) OR 2) AND NOT (4 OR 2)) AND 4 = 0"
proof -
  have "\<not> bit ((s OR 2) AND NOT (4 OR 2)) 2"
    unfolding bit_and_iff bit_not_iff bit_or_iff by simp
  then show ?thesis unfolding and_4_eq_0_iff by blast
qed

lemma bound_after_binding: "((((s::32 word) OR 1) OR 4) AND NOT 1) AND 4 \<noteq> 0"
proof -
  have "bit (((s OR 1) OR 4) AND NOT 1) 2"
    unfolding bit_and_iff bit_not_iff bit_or_iff by simp
  then show ?thesis unfolding and_4_eq_0_iff by blast
qed

text \<open>The same two facts, with the masks written as the simplifier writes them.\<close>

lemma state_after_unbinding [simp]: "(((s::32 word) OR 2) AND - 7) AND 4 = 0"
  using not_bound_after_unbinding [of s] by simp

lemma state_after_binding [simp]: "((((s::32 word) OR 1) OR 4) AND - 2) AND 4 \<noteq> 0"
  using bound_after_binding [of s] by simp

section \<open>Slots\<close>

lemma filled_Nil [simp]: "filled [] = {}"
  by (simp add: filled_def)

lemma filled_Cons_None [simp]: "filled (None # ss) = filled ss"
  by (auto simp: filled_def)

lemma filled_Cons_Some [simp]: "filled (Some sl # ss) = insert sl (filled ss)"
  by (auto simp: filled_def)

lemma list_ex_holds: "list_ex (holds ob) ss = (\<exists>sl \<in> filled ss. observer sl = ob)"
proof (induction ss)
  case Nil
  then show ?case by simp
next
  case (Cons s ss)
  then show ?case by (cases s) auto
qed

lemma filled_place:
  "filled (place s ss) = insert s (filled ss)"
  by (induction s ss rule: place.induct) auto

lemma filled_retag:
  "filled (map (\<lambda>s. if holds ob s then Some x else s) ss) =
     (if list_ex (holds ob) ss then insert x {sl \<in> filled ss. observer sl \<noteq> ob}
      else filled ss)"
proof (induction ss)
  case Nil
  then show ?case by simp
next
  case (Cons s ss)
  then show ?case
    by (cases s) (auto simp: list_ex_holds)
qed

lemma filled_add_slot:
  "filled (add_slot sc v ob ss) =
     insert (Slot ob v sc) {sl \<in> filled ss. observer sl \<noteq> ob}"
  by (auto simp: add_slot_def filled_retag filled_place list_ex_holds)

lemma filled_fold_add_slot:
  "filled (fold (add_slot sc v) obs ss) =
     (\<lambda>ob. Slot ob v sc) ` set obs \<union> {sl \<in> filled ss. observer sl \<notin> set obs}"
proof (induction obs arbitrary: ss)
  case Nil
  then show ?case by simp
next
  case (Cons ob obs)
  show ?case
    by (auto simp: Cons.IH filled_add_slot)
qed

lemma filled_unobserve:
  "filled (map (\<lambda>s. if stale all v s then None else s) ss) =
     (if all then {} else {sl \<in> filled ss. same_count (tag sl) v})"
proof (induction ss)
  case Nil
  then show ?case by simp
next
  case (Cons s ss)
  then show ?case by (cases s) auto
qed

lemma set_map_filter_id: "set (List.map_filter id ss) = filled ss"
proof (induction ss)
  case Nil
  then show ?case by simp
next
  case (Cons s ss)
  then show ?case by (cases s) simp_all
qed

lemma set_subscriptions: "set (subscriptions w) = observer ` filled (slots w)"
  by (simp add: subscriptions_def set_map_filter_id)

lemma subscriptions_Nil_iff: "(subscriptions w = []) = (filled (slots w) = {})"
  using set_subscriptions [of w] by (metis image_is_empty set_empty)

lemma list_all_slot_ok:
  "list_all (slot_ok sc) ss = (\<forall>sl \<in> filled ss. under sl = sc)"
proof (induction ss)
  case Nil
  then show ?case by simp
next
  case (Cons s ss)
  then show ?case by (cases s) auto
qed

lemma list_all_empty: "list_all (\<lambda>s. s = None) ss = (filled ss = {})"
proof (induction ss)
  case Nil
  then show ?case by simp
next
  case (Cons s ss)
  then show ?case by (cases s) auto
qed

section \<open>addObserver, connect, unobserve\<close>

lemma initialised_idem [simp]: "initialised (initialised v) = initialised v"
  by (cases v) simp_all

lemma initialised_increment [simp]: "initialised (increment v) = increment v"
  by (cases v) simp_all

lemma connected_version_increment [simp]:
  "connected_version (increment v) obs = increment v"
  by (simp add: connected_version_def)

lemma fold_addObserver:
  "fold (addObserver sc) obs w =
     w\<lparr>version := connected_version (version w) obs,
       slots := fold (add_slot sc (initialised (version w))) obs (slots w)\<rparr>"
proof (induction obs arbitrary: w)
  case Nil
  show ?case by (simp add: connected_version_def)
next
  case (Cons ob obs)
  have "fold (addObserver sc) (ob # obs) w = fold (addObserver sc) obs (addObserver sc ob w)"
    by simp
  also have "\<dots> = (addObserver sc ob w)
      \<lparr>version := connected_version (version (addObserver sc ob w)) obs,
        slots := fold (add_slot sc (initialised (version (addObserver sc ob w)))) obs
                   (slots (addObserver sc ob w))\<rparr>"
    by (rule Cons.IH)
  also have "\<dots> = w\<lparr>version := connected_version (version w) (ob # obs),
       slots := fold (add_slot sc (initialised (version w))) (ob # obs) (slots w)\<rparr>"
    by (simp add: addObserver_def connected_version_def Let_def)
  finally show ?case .
qed

lemma connect_eq:
  "connect f sc w =
     w\<lparr>trace := trace w @ [Connect f sc],
       version := connected_version (version w) (dependencies (sourceExpression w) f sc),
       slots := fold (add_slot sc (initialised (version w)))
                  (dependencies (sourceExpression w) f sc) (slots w)\<rparr>"
  by (simp add: connect_def fold_addObserver log_def)

lemma unobserve_eq:
  "unobserve all w =
     w\<lparr>trace := trace w @ [Unobserve all],
       slots := map (\<lambda>s. if stale all (version w) s then None else s) (slots w)\<rparr>"
  by (simp add: unobserve_def log_def)

section \<open>The methods in closed form\<close>

lemma or_and_absorb_word: "(x::32 word) OR (x AND c) = x"
  by (simp add: bit_eq_iff bit_simps)

lemma PB_unbind_not_bound: "\<not> isBound w \<Longrightarrow> PB_unbind f w = Return w"
  by (simp add: PB_unbind_def isBound_def)

lemma PB_unbind_bound:
  assumes "isBound w" and "targetObserver w = Some t"
  shows "PB_unbind f w =
     Return (w\<lparr>state := (state w OR 2) AND NOT (4 OR 2),
              persistentFlags := 0,
              scope := None,
              targetObserver := Some (unbound_target t),
              slots := map (\<lambda>s. if stale True (version w) s then None else s) (slots w),
              trace := trace w @ unbind_events f w t\<rparr>)"
  using assms
  by (simp add: PB_unbind_def isBound_def Let_def unobserve_eq log_def unbound_target_def
      unbind_events_def)

lemma PB_handleChange_not_bound: "\<not> isBound w \<Longrightarrow> PB_handleChange nv pv f w = Return w"
  by (simp add: PB_handleChange_def isBound_def)

lemma PB_handleChange_target:
  assumes "isBound w" and "targetObserver w = Some t"
    and "(f OR persistentFlags w) AND 16 > 0"
  shows "PB_handleChange nv pv f w =
     (let f' = f OR persistentFlags w;
          nv' = new_value nv f' w;
          changed = strict_neq nv' (observed_value t);
          cycle = (mode w AND oneTime = 0)
      in Return (w\<lparr>targetObserver := Some (if changed then t\<lparr>observed_value := nv'\<rparr> else t),
                   version := (if cycle then increment (version w) else version w),
                   slots := (if cycle
                             then map (\<lambda>s. if stale False (increment (version w)) s
                                            then None else s)
                                    (fold (add_slot (scope w) (increment (version w)))
                                       (dependencies (sourceExpression w) f' (scope w)) (slots w))
                             else slots w),
                   trace := trace w @ [GetValue]
                     @ (if kind (sourceExpression w) \<noteq> 10082 \<or> observerSlots w > 1
                        then [Evaluate f' (scope w)] else [])
                     @ (if changed then [SetValue nv' f'] else [])
                     @ (if cycle then [Connect f' (scope w), Unobserve False] else [])\<rparr>))"
  using assms
  by (simp add: PB_handleChange_def isBound_def Let_def unobserve_eq connect_eq log_def
      and_then_def PB_updateTarget_def new_value_def observerSlots_def or.assoc)

lemma and_then_Return [simp]: "and_then (Return w) f = f w"
  by (simp add: and_then_def)

lemma and_then_Throw [simp]: "and_then (Throw e w) f = Throw e w"
  by (simp add: and_then_def)

lemma bind_enter_eq:
  "bind_enter f sc p w =
     w\<lparr>state := state w OR 1, persistentFlags := f AND 2080374799, scope := Some sc,
       part := p,
       trace := trace w @ (if hasBind (sourceExpression w) then [ExprBind f sc] else [])\<rparr>"
  by (simp add: bind_enter_def log_def)

lemma bind_locate_eq:
  "bind_locate f w =
     w\<lparr>targetObserver := Some (bind_target w),
       trace := trace w @
         (case targetObserver w of
            Some t \<Rightarrow> []
          | None \<Rightarrow> if mode w AND fromView \<noteq> 0 then [GetObserver f] else [GetAccessor f])\<rparr>"
  by (cases "targetObserver w") (simp_all add: bind_locate_def bind_target_def log_def)

lemma bind_observer_eq:
  "bind_observer f w =
     (case targetObserver w of
        None \<Rightarrow> Throw TypeError w
      | Some t \<Rightarrow>
          Return (w\<lparr>trace := trace w @
            (if mode w \<noteq> oneTime \<and> has_bind t then [ObserverBind f] else [])\<rparr>))"
  by (cases "targetObserver w") (simp_all add: bind_observer_def log_def)

lemma bind_update_eq:
  "targetObserver w = Some t \<Longrightarrow>
   bind_update f sc w =
     Return (w\<lparr>targetObserver :=
                 Some (if mode w AND toViewOrOneTime \<noteq> 0
                       then t\<lparr>observed_value := evaluate (sourceExpression w) f (Some sc)\<rparr>
                       else t),
               trace := trace w @
                 (if mode w AND toViewOrOneTime \<noteq> 0
                  then [Evaluate f (Some sc),
                        SetValue (evaluate (sourceExpression w) f (Some sc)) (f OR persistentFlags w)]
                  else [])\<rparr>)"
  by (simp add: bind_update_def PB_updateTarget_def log_def)

lemma bind_connect_eq:
  "bind_connect f sc w =
     Return (w\<lparr>version :=
                (if mode w AND toView \<noteq> 0
                 then connected_version (version w)
                        (dependencies (sourceExpression w) f (Some sc))
                 else version w),
              slots :=
                 (if mode w AND toView \<noteq> 0
                  then fold (add_slot (Some sc) (initialised (version w)))
                         (dependencies (sourceExpression w) f (Some sc)) (slots w)
                  else slots w),
               trace := trace w @ (if mode w AND toView \<noteq> 0 then [Connect f (Some sc)] else [])\<rparr>)"
  by (simp add: bind_connect_def connect_eq)

lemma bind_subscribe_eq:
  "targetObserver w = Some t \<Longrightarrow> mode w AND fromView = 0 \<or> subscribable t \<Longrightarrow>
   bind_subscribe w =
     Return (w\<lparr>targetObserver :=
                 Some (if mode w AND fromView \<noteq> 0
                       then t\<lparr>subscribed := True, id_flags := id_flags t OR 32\<rparr> else t),
               trace := trace w @ (if mode w AND fromView \<noteq> 0 then [Subscribe] else [])\<rparr>)"
  by (auto simp add: bind_subscribe_def log_def)

lemma bind_subscribe_throws:
  "targetObserver w = Some t \<Longrightarrow> mode w AND fromView \<noteq> 0 \<Longrightarrow> \<not> subscribable t \<Longrightarrow>
   bind_subscribe w = Throw TypeError w"
  by (simp add: bind_subscribe_def)

lemma bind_leave_eq: "bind_leave w = Return (w\<lparr>state := (state w OR 4) AND NOT 1\<rparr>)"
  by (simp add: bind_leave_def)

lemma bind_body_returns:
  assumes "mode w AND fromView = 0 \<or> subscribable (bind_target w)"
  shows "bind_body f sc p w =
     Return (w\<lparr>state := ((state w OR 1) OR 4) AND NOT 1,
              persistentFlags := (f OR 4) AND 2080374799,
              scope := Some sc,
              part := p,
              targetObserver := Some (bound_target (f OR 4) sc w),
              version :=
                (if mode w AND toView \<noteq> 0
                 then connected_version (version w)
                        (dependencies (sourceExpression w) (f OR 4) (Some sc))
                 else version w),
              slots := (if mode w AND toView \<noteq> 0
                        then fold (add_slot (Some sc) (initialised (version w)))
                               (dependencies (sourceExpression w) (f OR 4) (Some sc)) (slots w)
                        else slots w),
              trace := trace w @ bind_events (f OR 4) sc w\<rparr>)"
proof -
  define w1 where "w1 = bind_locate (f OR 4) (bind_enter (f OR 4) sc p w)"
  have w1: "w1 = w\<lparr>state := state w OR 1, persistentFlags := (f OR 4) AND 2080374799,
       scope := Some sc, part := p, targetObserver := Some (bind_target w),
       trace := trace w @ (if hasBind (sourceExpression w) then [ExprBind (f OR 4) sc] else [])
         @ (case targetObserver w of
            Some t \<Rightarrow> []
          | None \<Rightarrow> if mode w AND fromView \<noteq> 0 then [GetObserver (f OR 4)] else [GetAccessor (f OR 4)])\<rparr>"
    by (cases "targetObserver w") (simp_all add: w1_def bind_locate_eq bind_enter_eq bind_target_def)
  define w2 where "w2 = w1\<lparr>trace := trace w1 @
            (if mode w \<noteq> oneTime \<and> has_bind (bind_target w) then [ObserverBind (f OR 4)] else [])\<rparr>"
  have s2: "bind_observer (f OR 4) w1 = Return w2"
    by (simp add: bind_observer_eq w1 w2_def)
  have t2: "targetObserver w2 = Some (bind_target w)" "mode w2 = mode w"
    "sourceExpression w2 = sourceExpression w" "persistentFlags w2 = (f OR 4) AND 2080374799"
    "version w2 = version w" "slots w2 = slots w"
    by (simp_all add: w2_def w1)
  define t3 where "t3 = (if mode w AND toViewOrOneTime \<noteq> 0
                       then (bind_target w)\<lparr>observed_value := evaluate (sourceExpression w) (f OR 4) (Some sc)\<rparr>
                       else bind_target w)"
  define w3 where "w3 = w2\<lparr>targetObserver := Some t3,
               trace := trace w2 @
                 (if mode w AND toViewOrOneTime \<noteq> 0
                  then [Evaluate (f OR 4) (Some sc),
                        SetValue (evaluate (sourceExpression w) (f OR 4) (Some sc)) (f OR 4)]
                  else [])\<rparr>"
  have s3: "bind_update (f OR 4) sc w2 = Return w3"
    by (simp add: bind_update_eq [OF t2(1)] t2 w3_def t3_def or_and_absorb_word)
  have t3: "targetObserver w3 = Some t3" "mode w3 = mode w"
    "sourceExpression w3 = sourceExpression w" 
    "version w3 = version w" "slots w3 = slots w"
    by (simp_all add: w3_def t2)
  define w4 where "w4 = w3\<lparr>version :=
                (if mode w AND toView \<noteq> 0
                 then connected_version (version w)
                        (dependencies (sourceExpression w) (f OR 4) (Some sc))
                 else version w),
              slots :=
                 (if mode w AND toView \<noteq> 0
                  then fold (add_slot (Some sc) (initialised (version w)))
                         (dependencies (sourceExpression w) (f OR 4) (Some sc)) (slots w)
                  else slots w),
               trace := trace w3 @ (if mode w AND toView \<noteq> 0 then [Connect (f OR 4) (Some sc)] else [])\<rparr>"
  have s4: "bind_connect (f OR 4) sc w3 = Return w4"
    by (simp add: bind_connect_eq t3 w4_def)
  have t4: "targetObserver w4 = Some t3" "mode w4 = mode w"
    by (simp_all add: w4_def t3)
  have sub: "mode w4 AND fromView = 0 \<or> subscribable t3"
    using assms by (auto simp: t4 t3_def)
  define w5 where "w5 = w4\<lparr>targetObserver :=
                 Some (if mode w AND fromView \<noteq> 0
                       then t3\<lparr>subscribed := True, id_flags := id_flags t3 OR 32\<rparr> else t3),
               trace := trace w4 @ (if mode w AND fromView \<noteq> 0 then [Subscribe] else [])\<rparr>"
  have s5: "bind_subscribe w4 = Return w5"
    by (simp add: bind_subscribe_eq [OF t4(1) sub] t4 w5_def)
  have "bind_body f sc p w = Return (w5\<lparr>state := (state w5 OR 4) AND NOT 1\<rparr>)"
    by (simp add: bind_body_def w1_def [symmetric] s2 s3 s4 s5 bind_leave_eq)
  also have "w5\<lparr>state := (state w5 OR 4) AND NOT 1\<rparr> =
     w\<lparr>state := ((state w OR 1) OR 4) AND NOT 1,
              persistentFlags := (f OR 4) AND 2080374799,
              scope := Some sc,
              part := p,
              targetObserver := Some (bound_target (f OR 4) sc w),
              version :=
                (if mode w AND toView \<noteq> 0
                 then connected_version (version w)
                        (dependencies (sourceExpression w) (f OR 4) (Some sc))
                 else version w),
              slots := (if mode w AND toView \<noteq> 0
                        then fold (add_slot (Some sc) (initialised (version w)))
                               (dependencies (sourceExpression w) (f OR 4) (Some sc)) (slots w)
                        else slots w),
              trace := trace w @ bind_events (f OR 4) sc w\<rparr>"
    by (simp add: w5_def w4_def w3_def w2_def w1 t3_def bound_target_def bind_events_def Let_def)
  finally show ?thesis .
qed

section \<open>Well-formed bindings stay well-formed\<close>

lemma wf_iff:
  "wf w =
     (target_ok (mode w) (isBound w) (targetObserver w)
      \<and> (if isBound w then scope w \<noteq> None
          else scope w = None \<and> persistentFlags w = 0 \<and> filled (slots w) = {})
      \<and> (\<forall>sl \<in> filled (slots w). under sl = scope w)
      \<and> subscribable (locator_observer w)
      \<and> \<not> subscribed (locator_observer w)
      \<and> \<not> subscribed (locator_accessor w))"
  by (simp add: wf_def list_all_slot_ok list_all_empty)

lemma wf_trace [simp]: "wf (w\<lparr>trace := evs\<rparr>) = wf w"
  by (simp add: wf_def isBound_def)

lemma wf_construct:
  assumes "subscribable lo" and "\<not> subscribed lo" and "\<not> subscribed la"
  shows "wf (construct e m lo la)"
  using assms by (simp add: wf_def construct_def isBound_def)

lemma wf_target:
  assumes "wf w" and "isBound w"
  obtains t where "targetObserver w = Some t"
  using assms by (cases "targetObserver w") (simp_all add: wf_def)

lemma wf_unbind:
  assumes "wf w"
  shows "returns (PB_unbind f w) \<and> wf (after (PB_unbind f w))"
proof (cases "isBound w")
  case False
  with assms show ?thesis by (simp add: PB_unbind_not_bound)
next
  case True
  with assms obtain t where t: "targetObserver w = Some t" by (rule wf_target)
  from assms True t have ok: "target_ok (mode w) False (Some (unbound_target t))"
    by (auto simp: wf_iff unbound_target_def)
  show ?thesis
    using assms ok
    by (simp add: PB_unbind_bound [OF True t] wf_iff filled_unobserve isBound_def)
qed

lemma bind_target_subscribable:
  assumes "wf w"
  shows "mode w AND fromView = 0 \<or> subscribable (bind_target w)"
  using assms by (cases "targetObserver w") (auto simp: wf_iff bind_target_def)

lemma wf_bind_body:
  assumes "wf w" and "\<not> isBound w"
  shows "returns (bind_body f sc p w) \<and> wf (after (bind_body f sc p w))"
proof -
  note sub = bind_target_subscribable [OF assms(1)]
  have quiet: "\<not> subscribed (bind_target w)"
    using assms by (cases "targetObserver w") (auto simp: wf_iff bind_target_def)
  have ok: "target_ok (mode w) True (Some (bound_target (f OR 4) sc w))"
    using sub quiet by (auto simp: bound_target_def Let_def)
  show ?thesis
    using assms ok
    by (simp add: bind_body_returns [OF sub] wf_iff filled_fold_add_slot isBound_def)
qed

lemma wf_bind:
  assumes "wf w"
  shows "returns (PB_bind f sc p w) \<and> wf (after (PB_bind f sc p w))"
proof (cases "isBound w")
  case False
  with assms show ?thesis
    using wf_bind_body [of w f sc p] by (simp add: PB_bind_def isBound_def)
next
  case True
  show ?thesis
  proof (cases "scope w = Some sc")
    case same: True
    with assms True show ?thesis by (simp add: PB_bind_def isBound_def)
  next
    case other: False
    obtain u where u: "PB_unbind (f OR 4096) w = Return u"
      using wf_unbind [OF assms, of "f OR 4096"] by (cases "PB_unbind (f OR 4096) w") simp_all
    with wf_unbind [OF assms, of "f OR 4096"] have "wf u" by simp
    moreover from assms True obtain t where t: "targetObserver w = Some t"
      by (rule wf_target)
    have "\<not> isBound u"
      using u by (auto simp add: PB_unbind_bound [OF True t] isBound_def)
    ultimately have "returns (bind_body f sc p u) \<and> wf (after (bind_body f sc p u))"
      by (rule wf_bind_body)
    with True other u show ?thesis
      by (simp add: PB_bind_def isBound_def)
  qed
qed

lemma PB_handleChange_source:
  assumes "isBound w" and "\<not> (f OR persistentFlags w) AND 16 > 0"
    and "(f OR persistentFlags w) AND 32 > 0"
  shows "PB_handleChange nv pv f w =
     Return (w\<lparr>trace := trace w @
       Evaluate (f OR persistentFlags w) (scope w) #
       (if strict_neq nv (evaluate (sourceExpression w) (f OR persistentFlags w) (scope w))
        then [Assign (f OR persistentFlags w) (scope w) nv] else [])\<rparr>)"
  using assms
  by (simp add: PB_handleChange_def isBound_def Let_def log_def PB_updateSource_def or.assoc)

lemma PB_handleChange_neither:
  assumes "isBound w" and "\<not> (f OR persistentFlags w) AND 16 > 0"
    and "\<not> (f OR persistentFlags w) AND 32 > 0"
  shows "PB_handleChange nv pv f w = Throw (ReporterError 15 (f OR persistentFlags w)) w"
  using assms
  by (simp add: PB_handleChange_def isBound_def Let_def)

lemma wf_handleChange:
  assumes "wf w"
  shows "wf (after (PB_handleChange nv pv f w))"
proof (cases "isBound w")
  case False
  with assms show ?thesis by (simp add: PB_handleChange_not_bound)
next
  case True
  show ?thesis
  proof (cases "(f OR persistentFlags w) AND 16 > 0")
    case target: True
    from assms True obtain t where t: "targetObserver w = Some t" by (rule wf_target)
    show ?thesis
      using assms True t
      by (auto simp add: PB_handleChange_target [OF True t target] Let_def wf_iff isBound_def
          filled_unobserve filled_fold_add_slot)
  next
    case no_target: False
    show ?thesis
    proof (cases "(f OR persistentFlags w) AND 32 > 0")
      case True
      with assms show ?thesis
        by (simp add: PB_handleChange_source [OF \<open>isBound w\<close> no_target True])
    next
      case False
      with assms show ?thesis
        by (simp add: PB_handleChange_neither [OF \<open>isBound w\<close> no_target False])
    qed
  qed
qed

lemma wf_invoke: "wf w \<Longrightarrow> wf (after (invoke c w))"
  by (cases c) (simp_all add: wf_bind wf_unbind wf_handleChange)

lemma wf_run: "wf w \<Longrightarrow> wf (run cs w)"
  by (induction cs arbitrary: w) (simp_all add: wf_invoke)

section \<open>What a call adds to the trace\<close>

lemma calls_trace [simp]: "calls P (w\<lparr>trace := evs\<rparr>) = filter P evs"
  by (simp add: calls_def)

lemma filter_unbind_events [simp]:
  "filter is_Evaluate (unbind_events f w t) = []"
  "filter is_Connect (unbind_events f w t) = []"
  "filter is_SetValue (unbind_events f w t) = []"
  "filter is_Subscribe (unbind_events f w t) = []"
  by (simp_all add: unbind_events_def)

lemma filter_bind_events:
  "filter is_Evaluate (bind_events f sc w) =
     (if mode w AND toViewOrOneTime \<noteq> 0 then [Evaluate f (Some sc)] else [])"
  "filter is_SetValue (bind_events f sc w) =
     (if mode w AND toViewOrOneTime \<noteq> 0
      then [SetValue (evaluate (sourceExpression w) f (Some sc)) f] else [])"
  "filter is_Connect (bind_events f sc w) =
     (if mode w AND toView \<noteq> 0 then [Connect f (Some sc)] else [])"
  "filter is_Subscribe (bind_events f sc w) =
     (if mode w AND fromView \<noteq> 0 then [Subscribe] else [])"
  by (cases "targetObserver w"; simp add: bind_events_def)+

section \<open>Binding starts from an unbound binding\<close>

lemma unbound_first_frame:
  assumes "wf w"
  shows "mode (unbound_first f w) = mode w
    \<and> sourceExpression (unbound_first f w) = sourceExpression w
    \<and> version (unbound_first f w) = version w
    \<and> calls is_Evaluate (unbound_first f w) = calls is_Evaluate w
    \<and> calls is_Connect (unbound_first f w) = calls is_Connect w
    \<and> calls is_SetValue (unbound_first f w) = calls is_SetValue w
    \<and> calls is_Subscribe (unbound_first f w) = calls is_Subscribe w
    \<and> \<not> isBound (unbound_first f w)"
proof (cases "isBound w")
  case True
  with assms obtain t where "targetObserver w = Some t" by (rule wf_target)
  with True show ?thesis
    by (simp add: unbound_first_def PB_unbind_bound calls_def isBound_def)
next
  case False
  then show ?thesis
    by (simp add: unbound_first_def)
qed

lemma unbound_first_facts:
  assumes "wf w"
  shows "wf (unbound_first f w)" and "\<not> isBound (unbound_first f w)"
    and "mode (unbound_first f w) = mode w"
    and "sourceExpression (unbound_first f w) = sourceExpression w"
    and "version (unbound_first f w) = version w"
    and "filled (slots (unbound_first f w)) = {}"
    and "scope (unbound_first f w) = None"
    and "calls is_Evaluate (unbound_first f w) = calls is_Evaluate w"
    and "calls is_Connect (unbound_first f w) = calls is_Connect w"
    and "calls is_SetValue (unbound_first f w) = calls is_SetValue w"
    and "calls is_Subscribe (unbound_first f w) = calls is_Subscribe w"
proof -
  show wf': "wf (unbound_first f w)"
    using assms wf_unbind [OF assms] by (simp add: unbound_first_def)
  show unbound: "\<not> isBound (unbound_first f w)"
    using unbound_first_frame [OF assms, of f] by simp
  from wf' unbound
  show "filled (slots (unbound_first f w)) = {}" and "scope (unbound_first f w) = None"
    by (simp_all add: wf_iff)
qed (simp_all add: unbound_first_frame [OF assms])

lemma PB_bind_unbound_first:
  assumes "wf w" and "\<not> (isBound w \<and> scope w = Some sc)"
  shows "PB_bind f sc p w = bind_body f sc p (unbound_first f w)"
proof (cases "isBound w")
  case True
  obtain u where u: "PB_unbind (f OR 4096) w = Return u"
    using wf_unbind [OF assms(1), of "f OR 4096"] by (cases "PB_unbind (f OR 4096) w") simp_all
  with assms True show ?thesis
    by (simp add: PB_bind_def unbound_first_def isBound_def)
next
  case False
  then show ?thesis
    by (simp add: PB_bind_def unbound_first_def isBound_def)
qed

text \<open>What \<open>$bind\<close> leaves, when it does not return at once.\<close>

lemma PB_bind_result:
  fixes f :: flags and w :: PropertyBinding
  assumes "wf w" and "\<not> (isBound w \<and> scope w = Some sc)"
  defines "u \<equiv> unbound_first f w"
  shows "PB_bind f sc p w =
     Return (u\<lparr>state := ((state u OR 1) OR 4) AND NOT 1,
              persistentFlags := (f OR 4) AND 2080374799,
              scope := Some sc,
              part := p,
              targetObserver := Some (bound_target (f OR 4) sc u),
              version :=
                (if mode w AND toView \<noteq> 0
                 then connected_version (version w)
                        (dependencies (sourceExpression w) (f OR 4) (Some sc))
                 else version w),
              slots := (if mode w AND toView \<noteq> 0
                        then fold (add_slot (Some sc) (initialised (version w)))
                               (dependencies (sourceExpression w) (f OR 4) (Some sc)) (slots u)
                        else slots u),
              trace := trace u @ bind_events (f OR 4) sc u\<rparr>)"
proof -
  have "wf u" by (simp add: u_def unbound_first_facts [OF assms(1)])
  then have "mode u AND fromView = 0 \<or> subscribable (bind_target u)"
    by (rule bind_target_subscribable)
  from bind_body_returns [OF this, of f sc p] show ?thesis
    by (simp add: PB_bind_unbound_first [OF assms(1,2)] u_def unbound_first_facts [OF assms(1)])
qed

section \<open>Change propagation\<close>

text \<open>
  Claim C9.  While a binding is not bound, \<open>handleChange\<close> returns at once and
  leaves the binding as it was: no call is made on the source expression or on the
  target observer, so nothing is evaluated, written or assigned.
\<close>

theorem handleChange_unbound_no_effect:
  "\<not> isBound w \<Longrightarrow>
   PB_handleChange newValue previousValue flags w = Return w
   \<and> trace (after (PB_handleChange newValue previousValue flags w)) = trace w"
  by (simp add: PB_handleChange_not_bound)

theorem handleChange_unbound_no_effect_witness:
  "PB_handleChange (JNum 8) (JNum 7) 16 (sample_new toView) = Return (sample_new toView)
   \<and> trace (after (PB_handleChange (JNum 8) (JNum 7) 16 (sample_new toView))) = []"
  using handleChange_unbound_no_effect [of "sample_new toView" "JNum 8" "JNum 7" 16]
  by (simp add: isBound_def sample_new_def construct_def)

text \<open>
  Claim C1.  A bound binding that handles a change in the target-update direction
  (the flags, with the persistent flags, contain \<open>updateTargetInstance\<close>) calls
  \<open>setValue\<close> on its target observer exactly when the new value, re-evaluated unless
  the expression is a lone AccessScope, is strictly unequal to the value the target
  observer holds; with equal values the target observer is left as it was.  And
  \<open>CollectionLengthObserver.setValue\<close> calls \<open>callSubscribers\<close> exactly when the
  new value is strictly unequal to \<open>currentValue\<close>, and otherwise changes nothing.
\<close>

theorem update_only_on_change:
  "(isBound w \<and> (flags OR persistentFlags w) AND 16 > 0 \<and> targetObserver w = Some t \<longrightarrow>
      (let flags' = flags OR persistentFlags w;
           newValue' = new_value newValue flags' w;
           w' = after (PB_handleChange newValue previousValue flags w)
       in returns (PB_handleChange newValue previousValue flags w)
          \<and> calls is_SetValue w' = calls is_SetValue w @
               (if strict_neq newValue' (observed_value t) then [SetValue newValue' flags'] else [])
          \<and> targetObserver w' =
               Some (if strict_neq newValue' (observed_value t)
                     then t\<lparr>observed_value := newValue'\<rparr> else t)))
   \<and> callSubscribers_calls (CLO_setValue v f ob) = callSubscribers_calls ob @
         (if strict_neq v (currentValue ob) then [(v, currentValue ob, f OR 16)] else [])
   \<and> (if strict_neq v (currentValue ob)
       then currentValue (CLO_setValue v f ob) = v
       else CLO_setValue v f ob = ob)"
proof -
  have binding: "returns (PB_handleChange newValue previousValue flags w)
      \<and> calls is_SetValue (after (PB_handleChange newValue previousValue flags w)) =
          calls is_SetValue w @
          (if strict_neq (new_value newValue (flags OR persistentFlags w) w) (observed_value t)
           then [SetValue (new_value newValue (flags OR persistentFlags w) w)
                   (flags OR persistentFlags w)]
           else [])
      \<and> targetObserver (after (PB_handleChange newValue previousValue flags w)) =
          Some (if strict_neq (new_value newValue (flags OR persistentFlags w) w) (observed_value t)
                then t\<lparr>observed_value := new_value newValue (flags OR persistentFlags w) w\<rparr>
                else t)"
    if "isBound w" and "(flags OR persistentFlags w) AND 16 > 0" and "targetObserver w = Some t"
    using that
    by (simp add: PB_handleChange_target [OF that(1,3,2)] Let_def calls_def)
  have observer: "callSubscribers_calls (CLO_setValue v f ob) = callSubscribers_calls ob @
         (if strict_neq v (currentValue ob) then [(v, currentValue ob, f OR 16)] else [])
     \<and> (if strict_neq v (currentValue ob)
         then currentValue (CLO_setValue v f ob) = v
         else CLO_setValue v f ob = ob)"
    by (simp add: CLO_setValue_def callSubscribers_def Let_def)
  from binding observer show ?thesis
    by (simp add: Let_def)
qed

theorem update_only_on_change_witness:
  "returns (PB_handleChange (JNum 3) (JNum 2) 16 (sample_bound toView))
   \<and> calls is_SetValue (after (PB_handleChange (JNum 3) (JNum 2) 16 (sample_bound toView))) =
       [SetValue (JNum 7) 20]
   \<and> targetObserver (after (PB_handleChange (JNum 3) (JNum 2) 16 (sample_bound toView))) =
       Some (sample_observer\<lparr>observed_value := JNum 7\<rparr>)
   \<and> callSubscribers_calls
       (CLO_setValue (JNum 4) 0
          \<lparr>obj_length = JNum 3, currentValue = JNum 3, callSubscribers_calls = []\<rparr>) =
       [(JNum 4, JNum 3, 16)]"
  using update_only_on_change
    [of "sample_bound toView" 16 "sample_observer\<lparr>observed_value := JNum 3\<rparr>" "JNum 3" "JNum 2"
        "JNum 4" 0 "\<lparr>obj_length = JNum 3, currentValue = JNum 3, callSubscribers_calls = []\<rparr>"]
  by (simp add: isBound_def sample_bound_def sample_expression_def new_value_def
      observerSlots_def strict_neq_def strict_eq_def calls_def Let_def)

section \<open>Unbinding and re-binding\<close>

lemma unbind_leaves_unbound:
  assumes "wf w"
  shows "\<not> isBound (after (PB_unbind f w))"
proof (cases "isBound w")
  case True
  with assms obtain t where "targetObserver w = Some t" by (rule wf_target)
  with True show ?thesis
    by (simp add: PB_unbind_bound isBound_def)
next
  case False
  then show ?thesis by (simp add: PB_unbind_not_bound)
qed

lemma wf_unbound_clean:
  assumes "wf u" and "\<not> isBound u"
  shows "scope u = None" and "persistentFlags u = 0" and "subscriptions u = []"
    and "case targetObserver u of None \<Rightarrow> True | Some t \<Rightarrow> \<not> subscribed t"
  using assms
  by (auto simp: wf_iff subscriptions_Nil_iff split: option.splits)

lemma unbind_twice:
  "and_then (PB_unbind f w) (PB_unbind f') = PB_unbind f w"
proof (cases "isBound w")
  case False
  then show ?thesis by (simp add: PB_unbind_not_bound)
next
  case True
  show ?thesis
  proof (cases "targetObserver w")
    case None
    with True show ?thesis
      by (simp add: PB_unbind_def isBound_def Let_def log_def)
  next
    case (Some t)
    show ?thesis
      by (simp add: PB_unbind_bound [OF True Some] PB_unbind_not_bound isBound_def)
  qed
qed

lemma filled_emptied [simp]: "filled (map (\<lambda>s. None) ss) = {}"
  by (induction ss) simp_all

text \<open>The definitions that evaluate \<open>$bind\<close> and \<open>$unbind\<close> on a given binding.\<close>

lemmas evaluate_bind = PB_bind_def bind_body_def bind_enter_def bind_locate_def
  bind_observer_def bind_update_def bind_connect_def bind_subscribe_def bind_leave_def
  PB_updateTarget_def PB_unbind_def connect_def addObserver_def add_slot_def log_def Let_def
  isBound_def subscriptions_def

lemmas evaluate_sample = sample_unsubscribable_def construct_def sample_scoped_expression_def
  sample_accessor_def twoWay_def fromView_def toView_def oneTime_def toViewOrOneTime_def

text \<open>
  Against claim C2 as it is worded (after \<open>$unbind\<close> completes, the scope is
  cleared and all source subscriptions are released, for every binding): a \<open>$bind\<close>
  that throws at \<open>subscribe\<close> leaves a binding that is not bound but has a scope and
  a source subscription, and \<open>$unbind\<close> on it returns at once and clears neither.
\<close>

theorem unbind_keeps_what_failed_bind_left:
  "\<not> returns (PB_bind 0 5 None sample_unsubscribable)
   \<and> \<not> isBound (after (PB_bind 0 5 None sample_unsubscribable))
   \<and> returns (PB_unbind 0 (after (PB_bind 0 5 None sample_unsubscribable)))
   \<and> scope (after (PB_unbind 0 (after (PB_bind 0 5 None sample_unsubscribable)))) = Some 5
   \<and> subscriptions (after (PB_unbind 0 (after (PB_bind 0 5 None sample_unsubscribable)))) = [15]"
  by (simp add: evaluate_bind evaluate_sample)

text \<open>
  Claim C2, amended.  \<open>$unbind\<close> on a binding that is not bound returns at once and
  changes nothing, whatever the binding holds.  Two calls of \<open>$unbind\<close> in a row,
  with any flags, do what the first does alone.  \<open>$unbind\<close> on a bound binding
  returns, and then the binding is not bound, its scope is undefined and its
  persistent flags are 0; the target observer is the same observer, unsubscribed from
  (with the flag under the binding's id cleared) when it has \<open>unsubscribe\<close>; every
  slot is emptied, so that no source subscription is left; and the calls made are, in
  this order, \<open>unbind\<close> on the source expression if it has it, with the scope the
  binding had, \<open>unbind\<close> on the target observer if it has it, \<open>unsubscribe\<close> on the
  target observer if it has it, and \<open>unobserve(true)\<close>.
\<close>

theorem unbind_idempotent:
  "(\<not> isBound w \<longrightarrow> PB_unbind flags w = Return w)
   \<and> and_then (PB_unbind flags w) (PB_unbind flags') = PB_unbind flags w
   \<and> (isBound w \<and> targetObserver w = Some t \<longrightarrow>
        returns (PB_unbind flags w)
        \<and> (let u = after (PB_unbind flags w)
           in \<not> isBound u
              \<and> scope u = None
              \<and> persistentFlags u = 0
              \<and> targetObserver u =
                  Some (if subscribable t
                        then t\<lparr>subscribed := False, id_flags := id_flags t AND NOT 32\<rparr>
                        else t)
              \<and> slots u = map (\<lambda>s. None) (slots w)
              \<and> subscriptions u = []
              \<and> trace u = trace w
                  @ (if hasUnbind (sourceExpression w) then [ExprUnbind flags (scope w)] else [])
                  @ (if has_unbind t then [ObserverUnbind flags] else [])
                  @ (if subscribable t then [Unsubscribe] else [])
                  @ [Unobserve True]))"
proof -
  have emptied: "map (\<lambda>s. if stale True v s then None else s) ss = map (\<lambda>s. None) ss" for v ss
  proof (induction ss)
    case Nil
    show ?case by simp
  next
    case (Cons s ss)
    then show ?case by (cases s) simp_all
  qed
  have bound: "returns (PB_unbind flags w)
        \<and> (let u = after (PB_unbind flags w)
           in \<not> isBound u
              \<and> scope u = None
              \<and> persistentFlags u = 0
              \<and> targetObserver u =
                  Some (if subscribable t
                        then t\<lparr>subscribed := False, id_flags := id_flags t AND NOT 32\<rparr>
                        else t)
              \<and> slots u = map (\<lambda>s. None) (slots w)
              \<and> subscriptions u = []
              \<and> trace u = trace w
                  @ (if hasUnbind (sourceExpression w) then [ExprUnbind flags (scope w)] else [])
                  @ (if has_unbind t then [ObserverUnbind flags] else [])
                  @ (if subscribable t then [Unsubscribe] else [])
                  @ [Unobserve True])"
    if "isBound w" and "targetObserver w = Some t"
    by (simp add: PB_unbind_bound [OF that] Let_def isBound_def unbound_target_def
        unbind_events_def emptied subscriptions_Nil_iff)
  from bound unbind_twice [of flags w flags'] show ?thesis
    by (simp add: PB_unbind_not_bound)
qed

theorem unbind_idempotent_witness:
  "returns (PB_unbind 0 (sample_bound twoWay))
   \<and> and_then (PB_unbind 0 (sample_bound twoWay)) (PB_unbind 8) = PB_unbind 0 (sample_bound twoWay)
   \<and> scope (after (PB_unbind 0 (sample_bound twoWay))) = None
   \<and> slots (after (PB_unbind 0 (sample_bound twoWay))) = [None, None]
   \<and> subscriptions (after (PB_unbind 0 (sample_bound twoWay))) = []
   \<and> trace (after (PB_unbind 0 (sample_bound twoWay))) =
       [ExprUnbind 0 (Some 5), ObserverUnbind 0, Unsubscribe, Unobserve True]
   \<and> PB_unbind 0 (sample_new twoWay) = Return (sample_new twoWay)"
proof -
  let ?w = "sample_bound twoWay"
  have bound: "isBound ?w"
    and fields: "targetObserver ?w = Some (sample_observer\<lparr>observed_value := JNum 3\<rparr>)"
      "trace ?w = []" "hasUnbind (sourceExpression ?w)" "scope ?w = Some 5"
      "slots ?w = [Some (Slot 1 (Counted 0) (Some 5)), Some (Slot 9 (Counted 0) (Some 5))]"
    by (simp_all add: sample_bound_def isBound_def sample_expression_def)
  have new: "\<not> isBound (sample_new twoWay)"
    by (simp add: isBound_def sample_new_def construct_def)
  from unbind_idempotent [of ?w 0 8 "sample_observer\<lparr>observed_value := JNum 3\<rparr>"] bound
  have first: "returns (PB_unbind 0 ?w)
      \<and> and_then (PB_unbind 0 ?w) (PB_unbind 8) = PB_unbind 0 ?w
      \<and> scope (after (PB_unbind 0 ?w)) = None
      \<and> slots (after (PB_unbind 0 ?w)) = [None, None]
      \<and> subscriptions (after (PB_unbind 0 ?w)) = []
      \<and> trace (after (PB_unbind 0 ?w)) =
          [ExprUnbind 0 (Some 5), ObserverUnbind 0, Unsubscribe, Unobserve True]"
    by (simp add: Let_def fields sample_observer_def)
  from unbind_idempotent [of "sample_new twoWay" 0 8] new
  have "PB_unbind 0 (sample_new twoWay) = Return (sample_new twoWay)" by simp
  with first show ?thesis by simp
qed

text \<open>
  Claim C3.  \<open>$bind\<close> on a bound binding with the scope it is bound to returns at
  once and changes nothing.  With another scope it first calls \<open>$unbind\<close> with the
  \<open>fromBind\<close> flag (4096) added to its flags: that call returns and leaves the
  binding unbound, without a scope and without source subscriptions, and the binding
  to the new scope starts from there, so that every call \<open>$bind\<close> makes for the new
  scope comes after the calls of \<open>$unbind\<close>.
\<close>

theorem bind_rebinds_after_unbind:
  "isBound w \<longrightarrow>
     (scope w = Some sc \<longrightarrow> PB_bind flags sc p w = Return w)
     \<and> (wf w \<and> scope w \<noteq> Some sc \<longrightarrow>
          returns (PB_unbind (flags OR 4096) w)
          \<and> (let u = after (PB_unbind (flags OR 4096) w);
                  w' = after (PB_bind flags sc p w)
             in \<not> isBound u \<and> scope u = None \<and> subscriptions u = []
                \<and> (case targetObserver w of
                      None \<Rightarrow> False
                    | Some t \<Rightarrow> trace u = trace w @ unbind_events (flags OR 4096) w t)
                \<and> bind_body flags sc p u = PB_bind flags sc p w
                \<and> returns (PB_bind flags sc p w)
                \<and> isBound w' \<and> scope w' = Some sc
                \<and> trace w' = trace u @ bind_events (flags OR 4) sc u))"
proof -
  have same: "PB_bind flags sc p w = Return w" if "isBound w" and "scope w = Some sc"
    using that by (simp add: PB_bind_def isBound_def)
  have other: "returns (PB_unbind (flags OR 4096) w)
          \<and> (let u = after (PB_unbind (flags OR 4096) w);
                  w' = after (PB_bind flags sc p w)
             in \<not> isBound u \<and> scope u = None \<and> subscriptions u = []
                \<and> (case targetObserver w of
                      None \<Rightarrow> False
                    | Some t \<Rightarrow> trace u = trace w @ unbind_events (flags OR 4096) w t)
                \<and> bind_body flags sc p u = PB_bind flags sc p w
                \<and> returns (PB_bind flags sc p w)
                \<and> isBound w' \<and> scope w' = Some sc
                \<and> trace w' = trace u @ bind_events (flags OR 4) sc u)"
    if "isBound w" and "wf w" and "scope w \<noteq> Some sc"
  proof -
    let ?u = "after (PB_unbind (flags OR 4096) w)"
    from that have fresh: "\<not> (isBound w \<and> scope w = Some sc)" by simp
    have u: "unbound_first flags w = ?u"
      using that by (simp add: unbound_first_def)
    from \<open>wf w\<close> \<open>isBound w\<close> obtain t where t: "targetObserver w = Some t" by (rule wf_target)
    have "wf ?u" and "\<not> isBound ?u"
      using wf_unbind [OF \<open>wf w\<close>] unbind_leaves_unbound [OF \<open>wf w\<close>] by simp_all
    from wf_unbound_clean [OF this]
    have clean: "scope ?u = None" "subscriptions ?u = []" by simp_all
    have tr: "trace ?u = trace w @ unbind_events (flags OR 4096) w t"
      by (simp add: PB_unbind_bound [OF \<open>isBound w\<close> t])
    have eq: "PB_bind flags sc p w = bind_body flags sc p ?u"
      using PB_bind_unbound_first [OF \<open>wf w\<close> fresh, of flags p] by (simp add: u)
    have "mode ?u AND fromView = 0 \<or> subscribable (bind_target ?u)"
      using \<open>wf ?u\<close> by (rule bind_target_subscribable)
    note res = bind_body_returns [OF this, of flags sc p]
    show ?thesis
      using wf_unbind [OF \<open>wf w\<close>, of "flags OR 4096"] \<open>\<not> isBound ?u\<close> clean tr t
      by (simp add: eq res Let_def isBound_def)
  qed
  from same other show ?thesis by blast
qed

theorem bind_rebinds_after_unbind_witness:
  "PB_bind 0 5 None (sample_bound toView) = Return (sample_bound toView)
   \<and> returns (PB_bind 0 6 None (sample_bound toView))
   \<and> scope (after (PB_bind 0 6 None (sample_bound toView))) = Some 6
   \<and> subscriptions (after (PB_unbind 4096 (sample_bound toView))) = []
   \<and> trace (after (PB_unbind 4096 (sample_bound toView))) =
       [ExprUnbind 4096 (Some 5), ObserverUnbind 4096, Unsubscribe, Unobserve True]"
proof -
  let ?w = "sample_bound toView"
  have wf0: "wf ?w"
    by (simp add: wf_def sample_bound_def isBound_def sample_observer_def sample_accessor_def)
  have bound: "isBound ?w" and sc: "scope ?w = Some 5"
    by (simp_all add: sample_bound_def isBound_def)
  have fields: "targetObserver ?w = Some (sample_observer\<lparr>observed_value := JNum 3\<rparr>)"
    "trace ?w = []" "hasUnbind (sourceExpression ?w)"
    by (simp_all add: sample_bound_def sample_expression_def)
  from bind_rebinds_after_unbind [of ?w 5 0 None] bound sc
  have same: "PB_bind 0 5 None ?w = Return ?w" by simp
  from bind_rebinds_after_unbind [of ?w 6 0 None] wf0 bound sc
  have other: "returns (PB_bind 0 6 None ?w)
      \<and> scope (after (PB_bind 0 6 None ?w)) = Some 6
      \<and> subscriptions (after (PB_unbind 4096 ?w)) = []
      \<and> trace (after (PB_unbind 4096 ?w)) = unbind_events 4096 ?w (sample_observer\<lparr>observed_value := JNum 3\<rparr>)"
    by (simp add: Let_def fields)
  from same other show ?thesis
    by (simp add: unbind_events_def fields sc sample_observer_def)
qed

section \<open>Binding and the binding mode\<close>

lemma mode_constants:
  "twoWay AND toView \<noteq> 0" "twoWay AND fromView \<noteq> 0"
  "oneTime AND toView = 0" "oneTime AND fromView = 0" "oneTime AND toViewOrOneTime \<noteq> 0"
  "toView AND toViewOrOneTime \<noteq> 0" "fromView AND toViewOrOneTime = 0"
  "fromView AND toView = 0"
  by (simp_all add: twoWay_def toView_def fromView_def oneTime_def toViewOrOneTime_def)

lemma toViewOrOneTime_iff:
  "(m AND toViewOrOneTime \<noteq> 0) = (m AND toView \<noteq> 0 \<or> m AND oneTime \<noteq> 0)"
  by (auto simp add: toViewOrOneTime_def bit.conj_disj_distrib or_eq_0_iff)

text \<open>What \<open>$bind\<close> adds to the trace and leaves in the slots, by kind of call.\<close>

lemma PB_bind_effects:
  fixes f :: flags and w :: PropertyBinding and sc :: scope_ref and p :: "string option"
  assumes "wf w" and "\<not> (isBound w \<and> scope w = Some sc)"
  defines "w' \<equiv> after (PB_bind f sc p w)"
  shows "returns (PB_bind f sc p w)"
    and "isBound w'" and "scope w' = Some sc"
    and "calls is_Evaluate w' = calls is_Evaluate w @
          (if mode w AND toViewOrOneTime \<noteq> 0 then [Evaluate (f OR 4) (Some sc)] else [])"
    and "calls is_SetValue w' = calls is_SetValue w @
          (if mode w AND toViewOrOneTime \<noteq> 0
           then [SetValue (evaluate (sourceExpression w) (f OR 4) (Some sc)) (f OR 4)] else [])"
    and "calls is_Connect w' = calls is_Connect w @
          (if mode w AND toView \<noteq> 0 then [Connect (f OR 4) (Some sc)] else [])"
    and "calls is_Subscribe w' = calls is_Subscribe w @
          (if mode w AND fromView \<noteq> 0 then [Subscribe] else [])"
    and "set (subscriptions w') =
          (if mode w AND toView \<noteq> 0
           then set (dependencies (sourceExpression w) (f OR 4) (Some sc)) else {})"
    and "case targetObserver w' of
           None \<Rightarrow> False
         | Some t \<Rightarrow> subscribed t = (mode w AND fromView \<noteq> 0)"
proof -
  note u = unbound_first_facts [OF assms(1), of f]
  note res = PB_bind_result [OF assms(1,2), of f p]
  show "returns (PB_bind f sc p w)" by (simp add: res)
  show "isBound w'" by (simp add: w'_def res isBound_def)
  show "scope w' = Some sc" by (simp add: w'_def res)
  show "calls is_Evaluate w' = calls is_Evaluate w @
          (if mode w AND toViewOrOneTime \<noteq> 0 then [Evaluate (f OR 4) (Some sc)] else [])"
    using u(3,8) by (simp add: w'_def res filter_bind_events calls_def)
  show "calls is_SetValue w' = calls is_SetValue w @
          (if mode w AND toViewOrOneTime \<noteq> 0
           then [SetValue (evaluate (sourceExpression w) (f OR 4) (Some sc)) (f OR 4)] else [])"
    using u(3,4,10) by (simp add: w'_def res filter_bind_events calls_def)
  show "calls is_Connect w' = calls is_Connect w @
          (if mode w AND toView \<noteq> 0 then [Connect (f OR 4) (Some sc)] else [])"
    using u(3,9) by (simp add: w'_def res filter_bind_events calls_def)
  show "calls is_Subscribe w' = calls is_Subscribe w @
          (if mode w AND fromView \<noteq> 0 then [Subscribe] else [])"
    using u(3,11) by (simp add: w'_def res filter_bind_events calls_def)
  show "set (subscriptions w') =
          (if mode w AND toView \<noteq> 0
           then set (dependencies (sourceExpression w) (f OR 4) (Some sc)) else {})"
    using u(6) by (simp add: w'_def res set_subscriptions filled_fold_add_slot image_image)
  have quiet: "\<not> subscribed (bind_target (unbound_first f w))"
    using u(1,2)
    by (cases "targetObserver (unbound_first f w)") (auto simp: wf_iff bind_target_def)
  show "case targetObserver w' of
           None \<Rightarrow> False
         | Some t \<Rightarrow> subscribed t = (mode w AND fromView \<noteq> 0)"
    using quiet u(3) by (simp add: w'_def res bound_target_def Let_def)
qed

lemma wf_sample_new: "wf (sample_new m)"
  by (simp add: sample_new_def wf_construct sample_observer_def sample_accessor_def)

lemma sample_new_fields:
  "\<not> isBound (sample_new m)" "mode (sample_new m) = m" "trace (sample_new m) = []"
  "sourceExpression (sample_new m) = sample_expression"
  by (simp_all add: sample_new_def construct_def isBound_def)

text \<open>
  Claim C8.  The mode decides what \<open>$bind\<close> installs.  A \<open>$bind\<close> that binds (the
  binding is well-formed and not already bound to this scope) returns, and it connects
  the source expression exactly when the mode includes to-view (after it the binding
  is subscribed to the expression's dependencies in that case and to no source
  observer otherwise), subscribes to the target observer exactly when the mode
  includes from-view, and evaluates the expression and writes the target exactly when
  the mode includes to-view or one-time.  Two-way includes both to-view and
  from-view.
\<close>

theorem bind_directions_by_mode:
  "(wf w \<and> \<not> (isBound w \<and> scope w = Some sc) \<longrightarrow>
      returns (PB_bind flags sc p w)
      \<and> (let w' = after (PB_bind flags sc p w)
         in calls is_Connect w' = calls is_Connect w @
              (if mode w AND toView \<noteq> 0 then [Connect (flags OR 4) (Some sc)] else [])
            \<and> set (subscriptions w') =
                (if mode w AND toView \<noteq> 0
                 then set (dependencies (sourceExpression w) (flags OR 4) (Some sc)) else {})
            \<and> calls is_Subscribe w' = calls is_Subscribe w @
                (if mode w AND fromView \<noteq> 0 then [Subscribe] else [])
            \<and> (case targetObserver w' of
                  None \<Rightarrow> False
                | Some t \<Rightarrow> subscribed t = (mode w AND fromView \<noteq> 0))
            \<and> calls is_Evaluate w' = calls is_Evaluate w @
                (if mode w AND toView \<noteq> 0 \<or> mode w AND oneTime \<noteq> 0
                 then [Evaluate (flags OR 4) (Some sc)] else [])
            \<and> calls is_SetValue w' = calls is_SetValue w @
                (if mode w AND toView \<noteq> 0 \<or> mode w AND oneTime \<noteq> 0
                 then [SetValue (evaluate (sourceExpression w) (flags OR 4) (Some sc)) (flags OR 4)]
                 else [])))
   \<and> twoWay AND toView \<noteq> 0 \<and> twoWay AND fromView \<noteq> 0"
  using PB_bind_effects [of w sc flags p]
  by (simp add: Let_def mode_constants toViewOrOneTime_iff)

theorem bind_directions_by_mode_witness:
  "returns (PB_bind 0 5 None (sample_new twoWay))
   \<and> calls is_Connect (after (PB_bind 0 5 None (sample_new twoWay))) = [Connect 4 (Some 5)]
   \<and> calls is_Subscribe (after (PB_bind 0 5 None (sample_new twoWay))) = [Subscribe]
   \<and> calls is_Evaluate (after (PB_bind 0 5 None (sample_new twoWay))) = [Evaluate 4 (Some 5)]
   \<and> calls is_SetValue (after (PB_bind 0 5 None (sample_new twoWay))) = [SetValue (JNum 7) 4]
   \<and> set (subscriptions (after (PB_bind 0 5 None (sample_new twoWay)))) = {1, 2}"
  using bind_directions_by_mode [of "sample_new twoWay" 5 0 None]
  by (simp add: Let_def wf_sample_new sample_new_fields mode_constants calls_def
      sample_expression_def)

text \<open>
  Against claim C4 as it is worded (every successful \<open>$bind\<close> evaluates and
  connects the source expression, whatever the mode): a from-view binding is neither
  evaluated nor connected by \<open>$bind\<close>, and it has no source subscription although
  its expression has dependencies.
\<close>

theorem bind_from_view_not_connected:
  "returns (PB_bind 0 5 None (sample_new fromView))
   \<and> calls is_Evaluate (after (PB_bind 0 5 None (sample_new fromView))) = []
   \<and> calls is_Connect (after (PB_bind 0 5 None (sample_new fromView))) = []
   \<and> subscriptions (after (PB_bind 0 5 None (sample_new fromView))) = []
   \<and> dependencies (sourceExpression (sample_new fromView)) 4 (Some 5) = [1, 2]"
  using PB_bind_effects [of "sample_new fromView" 5 0 None]
  by (simp add: wf_sample_new sample_new_fields mode_constants calls_def sample_expression_def)

text \<open>
  Claim C4, amended.  A \<open>$bind\<close> that binds (the binding is well-formed and not
  already bound to this scope) returns and leaves the binding bound to the scope.
  When the mode includes to-view it evaluates the source expression once and connects
  it once, and leaves the binding subscribed to exactly the source observers the
  expression depends on.  When the mode does not include to-view it does not connect
  the expression and leaves the binding without a source subscription, and it
  evaluates the expression, once, only if the mode includes one-time.
\<close>

theorem bind_to_view_connects:
  "wf w \<and> \<not> (isBound w \<and> scope w = Some sc) \<longrightarrow>
     returns (PB_bind flags sc p w)
     \<and> (let w' = after (PB_bind flags sc p w)
        in isBound w' \<and> scope w' = Some sc
           \<and> (if mode w AND toView \<noteq> 0
               then calls is_Evaluate w' = calls is_Evaluate w @ [Evaluate (flags OR 4) (Some sc)]
                    \<and> calls is_Connect w' = calls is_Connect w @ [Connect (flags OR 4) (Some sc)]
                    \<and> set (subscriptions w') =
                        set (dependencies (sourceExpression w) (flags OR 4) (Some sc))
               else calls is_Connect w' = calls is_Connect w
                    \<and> subscriptions w' = []
                    \<and> calls is_Evaluate w' = calls is_Evaluate w @
                        (if mode w AND oneTime \<noteq> 0
                         then [Evaluate (flags OR 4) (Some sc)] else [])))"
proof -
  have binds: "returns (PB_bind flags sc p w)
     \<and> (let w' = after (PB_bind flags sc p w)
        in isBound w' \<and> scope w' = Some sc
           \<and> (if mode w AND toView \<noteq> 0
               then calls is_Evaluate w' = calls is_Evaluate w @ [Evaluate (flags OR 4) (Some sc)]
                    \<and> calls is_Connect w' = calls is_Connect w @ [Connect (flags OR 4) (Some sc)]
                    \<and> set (subscriptions w') =
                        set (dependencies (sourceExpression w) (flags OR 4) (Some sc))
               else calls is_Connect w' = calls is_Connect w
                    \<and> subscriptions w' = []
                    \<and> calls is_Evaluate w' = calls is_Evaluate w @
                        (if mode w AND oneTime \<noteq> 0
                         then [Evaluate (flags OR 4) (Some sc)] else [])))"
    if wfw: "wf w" and fresh: "\<not> (isBound w \<and> scope w = Some sc)"
  proof (cases "mode w AND toView = 0")
    case True
    with PB_bind_effects [OF wfw fresh, of flags p] show ?thesis
      by (simp add: Let_def toViewOrOneTime_iff)
  next
    case False
    with PB_bind_effects [OF wfw fresh, of flags p] show ?thesis
      by (simp add: Let_def toViewOrOneTime_iff)
  qed
  then show ?thesis by blast
qed

theorem bind_to_view_connects_witness:
  "returns (PB_bind 0 5 None (sample_new toView))
   \<and> isBound (after (PB_bind 0 5 None (sample_new toView)))
   \<and> calls is_Evaluate (after (PB_bind 0 5 None (sample_new toView))) = [Evaluate 4 (Some 5)]
   \<and> calls is_Connect (after (PB_bind 0 5 None (sample_new toView))) = [Connect 4 (Some 5)]
   \<and> set (subscriptions (after (PB_bind 0 5 None (sample_new toView)))) = {1, 2}
   \<and> calls is_Connect (after (PB_bind 0 5 None (sample_new oneTime))) = []
   \<and> subscriptions (after (PB_bind 0 5 None (sample_new oneTime))) = []
   \<and> calls is_Evaluate (after (PB_bind 0 5 None (sample_new oneTime))) = [Evaluate 4 (Some 5)]"
proof -
  have modes: "mode (sample_new toView) AND toView \<noteq> 0"
    "mode (sample_new oneTime) AND toView = 0" "mode (sample_new oneTime) AND oneTime \<noteq> 0"
    by (simp_all add: sample_new_fields mode_constants toView_def oneTime_def)
  have new: "\<not> isBound (sample_new m)" "calls is_Evaluate (sample_new m) = []"
    "calls is_Connect (sample_new m) = []"
    "dependencies (sourceExpression (sample_new m)) 4 (Some 5) = [1, 2]" for m
    by (simp_all add: sample_new_fields calls_def sample_expression_def)
  from bind_to_view_connects [of "sample_new toView" 5 0 None]
    bind_to_view_connects [of "sample_new oneTime" 5 0 None] modes
  show ?thesis
    by (simp add: Let_def wf_sample_new new)
qed

section \<open>One-time bindings\<close>

lemma PB_handleChange_no_target:
  assumes "isBound w" and "(f OR persistentFlags w) AND 16 > 0" and "targetObserver w = None"
  shows "PB_handleChange nv pv f w = Throw TypeError w"
  using assms by (simp add: PB_handleChange_def isBound_def Let_def)

lemma handleChange_one_time:
  assumes "mode w AND oneTime \<noteq> 0"
  shows "version (after (PB_handleChange nv pv f w)) = version w
    \<and> slots (after (PB_handleChange nv pv f w)) = slots w
    \<and> calls is_Connect (after (PB_handleChange nv pv f w)) = calls is_Connect w
    \<and> calls is_Unobserve (after (PB_handleChange nv pv f w)) = calls is_Unobserve w"
proof (cases "isBound w")
  case False
  then show ?thesis by (simp add: PB_handleChange_not_bound)
next
  case True
  show ?thesis
  proof (cases "(f OR persistentFlags w) AND 16 > 0")
    case target: True
    show ?thesis
    proof (cases "targetObserver w")
      case None
      with True target show ?thesis by (simp add: PB_handleChange_no_target)
    next
      case (Some t)
      with assms show ?thesis
        by (simp add: PB_handleChange_target [OF True Some target] Let_def calls_def)
    qed
  next
    case no_target: False
    show ?thesis
    proof (cases "(f OR persistentFlags w) AND 32 > 0")
      case True
      then show ?thesis
        by (simp add: PB_handleChange_source [OF \<open>isBound w\<close> no_target True] calls_def)
    next
      case False
      then show ?thesis
        by (simp add: PB_handleChange_neither [OF \<open>isBound w\<close> no_target False])
    qed
  qed
qed

text \<open>
  Claim C5.  A binding whose mode is one-time is disconnected once it has been
  evaluated: a \<open>$bind\<close> that binds (the binding is well-formed and not already bound
  to this scope) returns, evaluates the source expression exactly once and writes the
  target exactly once, does not connect the expression, and leaves the binding
  without a source subscription.  And whenever the mode includes one-time,
  \<open>handleChange\<close> skips the cycle of version increment, connect and unobserve: the
  version and the slots stay as they were and neither \<open>connect\<close> nor \<open>unobserve\<close> is
  called.
\<close>

theorem one_time_disconnected:
  "(wf w \<and> mode w = oneTime \<and> \<not> (isBound w \<and> scope w = Some sc) \<longrightarrow>
      returns (PB_bind flags sc p w)
      \<and> (let w' = after (PB_bind flags sc p w)
         in calls is_Evaluate w' = calls is_Evaluate w @ [Evaluate (flags OR 4) (Some sc)]
            \<and> calls is_SetValue w' = calls is_SetValue w @
                [SetValue (evaluate (sourceExpression w) (flags OR 4) (Some sc)) (flags OR 4)]
            \<and> calls is_Connect w' = calls is_Connect w
            \<and> subscriptions w' = []))
   \<and> (mode w AND oneTime \<noteq> 0 \<longrightarrow>
        (let w' = after (PB_handleChange newValue previousValue flags' w)
         in version w' = version w
            \<and> slots w' = slots w
            \<and> calls is_Connect w' = calls is_Connect w
            \<and> calls is_Unobserve w' = calls is_Unobserve w))"
proof -
  have binds: "returns (PB_bind flags sc p w)
      \<and> (let w' = after (PB_bind flags sc p w)
         in calls is_Evaluate w' = calls is_Evaluate w @ [Evaluate (flags OR 4) (Some sc)]
            \<and> calls is_SetValue w' = calls is_SetValue w @
                [SetValue (evaluate (sourceExpression w) (flags OR 4) (Some sc)) (flags OR 4)]
            \<and> calls is_Connect w' = calls is_Connect w
            \<and> subscriptions w' = [])"
    if "wf w" and "mode w = oneTime" and "\<not> (isBound w \<and> scope w = Some sc)"
    using PB_bind_effects [OF that(1,3), of flags p]
    by (simp add: Let_def that(2) mode_constants)
  from binds handleChange_one_time [of w newValue previousValue flags'] show ?thesis
    by (simp add: Let_def)
qed

theorem one_time_disconnected_witness:
  "returns (PB_bind 0 5 None (sample_new oneTime))
   \<and> calls is_Evaluate (after (PB_bind 0 5 None (sample_new oneTime))) = [Evaluate 4 (Some 5)]
   \<and> calls is_SetValue (after (PB_bind 0 5 None (sample_new oneTime))) = [SetValue (JNum 7) 4]
   \<and> calls is_Connect (after (PB_bind 0 5 None (sample_new oneTime))) = []
   \<and> subscriptions (after (PB_bind 0 5 None (sample_new oneTime))) = []
   \<and> version (after (PB_handleChange (JNum 8) (JNum 7) 16 (sample_bound oneTime))) = Counted 0
   \<and> calls is_Connect (after (PB_handleChange (JNum 8) (JNum 7) 16 (sample_bound oneTime))) = []"
proof -
  have "mode (sample_bound oneTime) AND oneTime \<noteq> 0"
    "version (sample_bound oneTime) = Counted 0"
    "calls is_Connect (sample_bound oneTime) = []"
    by (simp_all add: sample_bound_def oneTime_def calls_def)
  then show ?thesis
    using one_time_disconnected [of "sample_new oneTime" 5 0 None "JNum 8" "JNum 7" 16]
      one_time_disconnected [of "sample_bound oneTime" 5 0 None "JNum 8" "JNum 7" 16]
    by (simp add: Let_def wf_sample_new sample_new_fields calls_def sample_expression_def)
qed

section \<open>The cycle of a target update\<close>

text \<open>
  What a target update of \<open>handleChange\<close> does on a bound binding whose mode does
  not include one-time: the version is incremented, the source expression is connected
  under the binding's scope, and then \<open>unobserve(false)\<close> empties the slots whose tag
  differs from the new version, in this order at the end of the trace.
\<close>

lemma handleChange_cycle:
  fixes f :: flags and w :: PropertyBinding and nv pv :: jsval
  assumes "isBound w" and "targetObserver w = Some t" and "mode w AND oneTime = 0"
    and "(f OR persistentFlags w) AND 16 > 0"
  defines "w' \<equiv> after (PB_handleChange nv pv f w)"
    and "deps \<equiv> dependencies (sourceExpression w) (f OR persistentFlags w) (scope w)"
  shows "returns (PB_handleChange nv pv f w)"
    and "version w' = increment (version w)"
    and "scope w' = scope w"
    and "calls is_Connect w' = calls is_Connect w @ [Connect (f OR persistentFlags w) (scope w)]"
    and "calls is_Unobserve w' = calls is_Unobserve w @ [Unobserve False]"
    and "\<exists>evs. trace w' =
           trace w @ evs @ [Connect (f OR persistentFlags w) (scope w), Unobserve False]"
    and "filled (slots w') =
           {sl \<in> (\<lambda>ob. Slot ob (increment (version w)) (scope w)) ` set deps
                  \<union> {sl \<in> filled (slots w). observer sl \<notin> set deps}.
            same_count (tag sl) (increment (version w))}"
  using assms(3)
  by (simp_all add: w'_def deps_def PB_handleChange_target [OF assms(1,2,4)] Let_def calls_def
      filled_unobserve filled_fold_add_slot)

text \<open>
  When the version is a number and no slot carries the next number yet, the cycle
  leaves the binding subscribed to exactly the current dependencies of the expression.
\<close>

lemma handleChange_counted_cycle:
  assumes "isBound w" and "targetObserver w = Some t" and "mode w AND oneTime = 0"
    and "(f OR persistentFlags w) AND 16 > 0"
    and "version w = Counted n"
    and "\<forall>sl \<in> filled (slots w). tag sl \<noteq> Counted (n + 1)"
  shows "version (after (PB_handleChange nv pv f w)) = Counted (n + 1)"
    and "set (subscriptions (after (PB_handleChange nv pv f w))) =
           set (dependencies (sourceExpression w) (f OR persistentFlags w) (scope w))"
proof -
  show "version (after (PB_handleChange nv pv f w)) = Counted (n + 1)"
    by (simp add: handleChange_cycle(2) [OF assms(1-4)] assms(5))
  have "filled (slots (after (PB_handleChange nv pv f w))) =
      (\<lambda>ob. Slot ob (Counted (n + 1)) (scope w)) `
        set (dependencies (sourceExpression w) (f OR persistentFlags w) (scope w))"
    using assms(6)
    by (auto simp add: handleChange_cycle(7) [OF assms(1-4)] assms(5) same_count_def)
  then show "set (subscriptions (after (PB_handleChange nv pv f w))) =
      set (dependencies (sourceExpression w) (f OR persistentFlags w) (scope w))"
    by (simp add: set_subscriptions image_image)
qed



section \<open>One scope at a time\<close>

text \<open>
  Against claim C6 as it is worded (the scope is set only while binding or bound, and
  no sequence of calls leaves the binding associated with two scopes): when the
  observer locator returns from \<open>getObserver\<close> an observer without \<open>subscribe\<close>,
  \<open>$bind\<close> of a two-way binding throws after it has stored the scope and connected
  the source expression.  The binding is then not bound but has a scope; \<open>$unbind\<close>
  does nothing to it, and a \<open>$bind\<close> to another scope leaves it, still not bound,
  with the new scope and with source subscriptions made under both scopes.
\<close>

theorem failed_bind_leaves_two_scopes:
  "\<not> isBound (run [Bind 0 5 None] sample_unsubscribable)
   \<and> scope (run [Bind 0 5 None] sample_unsubscribable) = Some 5
   \<and> \<not> isBound (run [Bind 0 5 None, Unbind 0, Bind 0 6 None] sample_unsubscribable)
   \<and> scope (run [Bind 0 5 None, Unbind 0, Bind 0 6 None] sample_unsubscribable) = Some 6
   \<and> slots (run [Bind 0 5 None, Unbind 0, Bind 0 6 None] sample_unsubscribable) =
       [Some (Slot 15 (Counted 0) (Some 5)), Some (Slot 16 (Counted 0) (Some 6))]"
  by (simp add: evaluate_bind evaluate_sample)

text \<open>
  Claim C6, amended.  Take a new binding whose observer locator returns from
  \<open>getObserver\<close> an observer that can be subscribed to, so that no \<open>$bind\<close> throws
  between storing the scope and setting the bound state, the binding being subscribed
  to nothing yet, and call \<open>$bind\<close>, \<open>$unbind\<close> and \<open>handleChange\<close> on it in any
  order, with any arguments, going on after a call that throws.  The binding reached
  is well-formed.  It has a scope exactly while it is bound; while it is not bound it
  has no source subscription.  Every source subscription it holds was made under its
  one current scope.  And \<open>$bind\<close> to another scope replaces the scope only after
  unbinding: the binding to the new scope starts from what \<open>$unbind\<close> leaves,
  which has no scope and no source subscription.
\<close>

theorem one_scope_at_a_time:
  "subscribable lo \<and> \<not> subscribed lo \<and> \<not> subscribed la \<longrightarrow>
     (let w = run cs (construct e m lo la)
      in wf w
         \<and> (if isBound w then scope w \<noteq> None else scope w = None \<and> subscriptions w = [])
         \<and> (\<forall>sl \<in> filled (slots w). under sl = scope w)
         \<and> (\<forall>flags sc p. isBound w \<and> scope w \<noteq> Some sc \<longrightarrow>
               (let u = after (PB_unbind (flags OR 4096) w)
                in scope u = None \<and> subscriptions u = []
                   \<and> bind_body flags sc p u = PB_bind flags sc p w
                   \<and> scope (after (PB_bind flags sc p w)) = Some sc)))"
proof -
  have reached: "(let w = run cs (construct e m lo la)
      in wf w
         \<and> (if isBound w then scope w \<noteq> None else scope w = None \<and> subscriptions w = [])
         \<and> (\<forall>sl \<in> filled (slots w). under sl = scope w)
         \<and> (\<forall>flags sc p. isBound w \<and> scope w \<noteq> Some sc \<longrightarrow>
               (let u = after (PB_unbind (flags OR 4096) w)
                in scope u = None \<and> subscriptions u = []
                   \<and> bind_body flags sc p u = PB_bind flags sc p w
                   \<and> scope (after (PB_bind flags sc p w)) = Some sc)))"
    if "subscribable lo" and "\<not> subscribed lo" and "\<not> subscribed la"
  proof -
    let ?w = "run cs (construct e m lo la)"
    from that have "wf (construct e m lo la)" by (rule wf_construct)
    then have wfw: "wf ?w" by (rule wf_run)
    then have inv: "if isBound ?w then scope ?w \<noteq> None
        else scope ?w = None \<and> subscriptions ?w = []"
      and under: "\<forall>sl \<in> filled (slots ?w). under sl = scope ?w"
      by (simp_all add: wf_iff subscriptions_Nil_iff)
    have rebind: "scope (after (PB_unbind (flags OR 4096) ?w)) = None
        \<and> subscriptions (after (PB_unbind (flags OR 4096) ?w)) = []
        \<and> bind_body flags sc p (after (PB_unbind (flags OR 4096) ?w)) = PB_bind flags sc p ?w
        \<and> scope (after (PB_bind flags sc p ?w)) = Some sc"
      if "isBound ?w" and "scope ?w \<noteq> Some sc" for flags sc p
    proof -
      from that have fresh: "\<not> (isBound ?w \<and> scope ?w = Some sc)" by simp
      have u: "unbound_first flags ?w = after (PB_unbind (flags OR 4096) ?w)"
        using that by (simp add: unbound_first_def)
      have "wf (after (PB_unbind (flags OR 4096) ?w))"
        and "\<not> isBound (after (PB_unbind (flags OR 4096) ?w))"
        using wf_unbind [OF wfw] unbind_leaves_unbound [OF wfw] by simp_all
      from wf_unbound_clean(1,3) [OF this] PB_bind_unbound_first [OF wfw fresh, of flags p]
        PB_bind_effects(3) [OF wfw fresh, of flags p]
      show ?thesis by (simp add: u)
    qed
    from wfw inv under rebind show ?thesis
      unfolding Let_def by blast
  qed
  then show ?thesis by blast
qed

theorem one_scope_at_a_time_witness:
  "isBound (run [Bind 0 5 None, Bind 0 6 None] (sample_new twoWay))
   \<and> scope (run [Bind 0 5 None, Bind 0 6 None] (sample_new twoWay)) = Some 6
   \<and> wf (run [Bind 0 5 None, Bind 0 6 None] (sample_new twoWay))"
proof -
  let ?w1 = "after (PB_bind 0 5 None (sample_new twoWay))"
  have first: "wf ?w1" "isBound ?w1" "scope ?w1 = Some 5"
    using wf_bind [OF wf_sample_new, of 0 5 None twoWay]
      PB_bind_effects(2,3) [OF wf_sample_new, of twoWay 5 0 None]
    by (simp_all add: sample_new_fields)
  then have second: "isBound (after (PB_bind 0 6 None ?w1))"
    "scope (after (PB_bind 0 6 None ?w1)) = Some 6"
    using PB_bind_effects(2,3) [of ?w1 6 0 None] by simp_all
  have "subscribable sample_observer \<and> \<not> subscribed sample_observer
      \<and> \<not> subscribed sample_accessor"
    by (simp add: sample_observer_def sample_accessor_def)
  with one_scope_at_a_time
    [of sample_observer sample_accessor "[Bind 0 5 None, Bind 0 6 None]" sample_expression twoWay]
    second
  show ?thesis
    by (simp add: Let_def sample_new_def)
qed


end
